theory Spec2Isabelle
  imports Main "HOL-Library.Sublist" "HOL-Library.Char_ord" "HOL-Library.List_Lexorder"
begin

section \<open>Errors raised by the route handlers\<close>

text \<open>
  The exceptions that the code of \<^verbatim>\<open>src/routes/package.js\<close> can raise, as values.
  The string is the message.
\<close>

datatype error = TypeError string | ReferenceError string | SyntaxError string

section \<open>String primitives of the host language\<close>

text \<open>
  Strings are sequences of code units; the model covers the code units below 256, so a
  string is a \<^typ>\<open>string\<close>. In this range the white space of \<^verbatim>\<open>trim\<close> and of the
  regular expression class \<^verbatim>\<open>\s\<close> is: tab, line feed, vertical tab, form feed, carriage
  return, space and no-break space.
\<close>

definition isWhiteSpace :: "char \<Rightarrow> bool" where
  "isWhiteSpace c \<longleftrightarrow>
     c = CHR 0x09 \<or> c = CHR 0x0A \<or> c = CHR 0x0B \<or> c = CHR 0x0C \<or> c = CHR 0x0D \<or>
     c = CHR 0x20 \<or> c = CHR 0xA0"

definition trimLeft :: "string \<Rightarrow> string" where
  "trimLeft s = dropWhile isWhiteSpace s"

definition trim :: "string \<Rightarrow> string" where
  "trim s = rev (dropWhile isWhiteSpace (rev (dropWhile isWhiteSpace s)))"

text \<open>\<^verbatim>\<open>s.slice(n)\<close> for \<open>n \<ge> 0\<close>: the string from index \<open>n\<close> on, empty beyond the end.\<close>

definition slice :: "string \<Rightarrow> nat \<Rightarrow> string" where
  "slice s n = drop n s"

text \<open>
  \<^verbatim>\<open>s.split(sep)\<close> with a string separator. \<open>split_from sep s\<close> scans \<open>s\<close> from the left
  for a non-empty separator; the first piece grows by one code unit until the separator
  is a prefix of what is left, and the scan resumes behind the separator.
\<close>

function split_from :: "string \<Rightarrow> string \<Rightarrow> string list" where
  "split_from sep [] = [[]]"
| "split_from sep (c # cs) =
     (if prefix sep (c # cs) then [] # split_from sep (drop (length sep - 1) cs)
      else (case split_from sep cs of
              [] \<Rightarrow> [[c]]
            | w # ws \<Rightarrow> (c # w) # ws))"
  by pat_completeness auto
termination
  by (relation "measure (\<lambda>(sep, s). length s)") auto

definition split :: "string \<Rightarrow> string \<Rightarrow> string list" where
  "split s sep = (if sep = [] then map (\<lambda>c. [c]) s else split_from sep s)"

text \<open>
  \<^verbatim>\<open>s.split(/\s+/)\<close>: the pieces between the maximal runs of white space. The empty
  string gives one empty piece, since the expression does not match the empty string.
\<close>

function split_whitespace :: "string \<Rightarrow> string list" where
  "split_whitespace [] = [[]]"
| "split_whitespace (c # cs) =
     (if isWhiteSpace c then [] # split_whitespace (dropWhile isWhiteSpace cs)
      else (case split_whitespace cs of
              [] \<Rightarrow> [[c]]
            | w # ws \<Rightarrow> (c # w) # ws))"
  by pat_completeness auto
termination
  by (relation "measure length") (auto simp: length_dropWhile_le less_Suc_eq_le)

text \<open>The decimal digits, and the number that a string of digits denotes.\<close>

definition isDigit :: "char \<Rightarrow> bool" where
  "isDigit c \<longleftrightarrow> c \<in> set ''0123456789''"

definition toNumber :: "string \<Rightarrow> nat" where
  "toNumber s = foldl (\<lambda>n c. 10 * n + (of_char c - 48)) 0 s"

section \<open>Module documentation\<close>

text \<open>
  An entry of one of the four symbol tables of a module (\<^verbatim>\<open>values\<close>, \<^verbatim>\<open>binops\<close>,
  \<^verbatim>\<open>unions\<close>, \<^verbatim>\<open>aliases\<close>), with the fields the constructors read. In the record
  of a module the fields \<^verbatim>\<open>name\<close>, \<^verbatim>\<open>comment\<close> and \<^verbatim>\<open>values\<close> are \<open>mod_name\<close>,
  \<open>mod_comment\<close> and \<open>mod_values\<close>.
\<close>

record symbol_record =
  name :: string
  comment :: string
  type :: string
  args :: "string list"
  tags :: "string list"

record moduleInfo =
  mod_name :: string
  mod_comment :: string
  mod_values :: "symbol_record list"
  binops :: "symbol_record list"
  unions :: "symbol_record list"
  aliases :: "symbol_record list"

text \<open>
  The objects built by the constructor functions \<^verbatim>\<open>Markdown\<close>, \<^verbatim>\<open>Value\<close>, \<^verbatim>\<open>Binop\<close>,
  \<^verbatim>\<open>Union\<close> and \<^verbatim>\<open>Alias\<close>. The constructors that take a comment render it; the
  renderer \<^verbatim>\<open>markdown.render\<close> is a parameter \<open>render\<close> of every function that uses it.
\<close>

datatype node =
    Markdown (html: string)
  | Value string string string
  | Binop string string string
  | Union string string "string list" "string list"
  | Alias string string "string list" string

definition new_Markdown :: "(string \<Rightarrow> string) \<Rightarrow> string \<Rightarrow> node" where
  "new_Markdown render txt = Markdown (render txt)"

definition new_Value :: "(string \<Rightarrow> string) \<Rightarrow> string \<Rightarrow> string \<Rightarrow> string \<Rightarrow> node" where
  "new_Value render n c t = Value n (render c) t"

definition new_Binop :: "(string \<Rightarrow> string) \<Rightarrow> string \<Rightarrow> string \<Rightarrow> string \<Rightarrow> node" where
  "new_Binop render n c t = Binop n (render c) t"

definition new_Union ::
  "(string \<Rightarrow> string) \<Rightarrow> string \<Rightarrow> string \<Rightarrow> string list \<Rightarrow> string list \<Rightarrow> node" where
  "new_Union render n c a g = Union n (render c) a g"

definition new_Alias ::
  "(string \<Rightarrow> string) \<Rightarrow> string \<Rightarrow> string \<Rightarrow> string list \<Rightarrow> string \<Rightarrow> node" where
  "new_Alias render n c a t = Alias n (render c) a t"

text \<open>\<^verbatim>\<open>list.find((e) => e.name === name)\<close>: the first entry with that name, if any.\<close>

definition findByName :: "symbol_record list \<Rightarrow> string \<Rightarrow> symbol_record option" where
  "findByName list n = find (\<lambda>e. name e = n) list"

text \<open>
  \<^verbatim>\<open>constructValue\<close> falls off its end when no table has the name: the result is
  \<^verbatim>\<open>undefined\<close>, here \<open>None\<close>.
\<close>

definition constructValue :: "(string \<Rightarrow> string) \<Rightarrow> moduleInfo \<Rightarrow> string \<Rightarrow> node option" where
  "constructValue render mi n =
     (case findByName (mod_values mi) n of
        Some d \<Rightarrow> Some (new_Value render n (comment d) (type d))
      | None \<Rightarrow>
     (case findByName (binops mi) n of
        Some d \<Rightarrow> Some (new_Binop render n (comment d) (type d))
      | None \<Rightarrow>
     (case findByName (unions mi) n of
        Some d \<Rightarrow> Some (new_Union render n (comment d) (args d) (tags d))
      | None \<Rightarrow>
     (case findByName (aliases mi) n of
        Some d \<Rightarrow> Some (new_Alias render n (comment d) (args d) (type d))
      | None \<Rightarrow> None))))"

text \<open>The delimiter of a directive block: a line feed followed by \<^verbatim>\<open>@docs\<close>.\<close>

definition docs_delimiter :: string where
  "docs_delimiter = CHR 0x0A # ''@docs''"

text \<open>
  The callback of the second \<^verbatim>\<open>flatMap\<close> in \<^verbatim>\<open>prepareModuleDocumentation\<close>: the
  entries that one comma-separated block contributes. An entry is an object or
  \<^verbatim>\<open>undefined\<close> (\<open>None\<close>).
\<close>

definition block_nodes :: "(string \<Rightarrow> string) \<Rightarrow> moduleInfo \<Rightarrow> string \<Rightarrow> node option list" where
  "block_nodes render mi block =
     (let words = split_whitespace (trim block) in
      case words of
        [] \<Rightarrow> []
      | firstWord # others \<Rightarrow>
          (let part = constructValue render mi firstWord in
           if length words = 1 then [part]
           else
             (let moreMarkdown =
                    new_Markdown render (slice (trimLeft block) (length firstWord))
              in [part, Some moreMarkdown])))"

text \<open>
  The result of \<^verbatim>\<open>prepareModuleDocumentation\<close>: the empty string of its first
  \<^verbatim>\<open>return\<close>, or the array of entries.
\<close>

datatype documentation = EmptyString | Nodes "node option list"

definition prepareModuleDocumentation ::
  "(string \<Rightarrow> string) \<Rightarrow> moduleInfo \<Rightarrow> documentation" where
  "prepareModuleDocumentation render mi =
     (case split (mod_comment mi) docs_delimiter of
        [] \<Rightarrow> EmptyString
      | first # blocks \<Rightarrow>
          (let intro = new_Markdown render first;
               parts = concat (map (block_nodes render mi)
                         (concat (map (\<lambda>p. split p '','') blocks)))
           in Nodes ([Some intro] @ parts)))"

section \<open>Links and the index of exposed modules\<close>

text \<open>
  \<^verbatim>\<open>encodeURIComponent\<close>: letters, digits and \<^verbatim>\<open>- _ . ! ~ * ' ( )\<close> stay; every other code
  unit becomes the percent-escaped bytes of its UTF-8 encoding, one byte below 128 and
  two bytes from 128 to 255.
\<close>

definition isUnreserved :: "char \<Rightarrow> bool" where
  "isUnreserved c \<longleftrightarrow>
     c \<in> set (''ABCDEFGHIJKLMNOPQRSTUVWXYZ'' @ ''abcdefghijklmnopqrstuvwxyz'' @
              ''0123456789'' @ ''-_.!~*()'' @ [CHR 0x27])"

definition hexDigit :: "nat \<Rightarrow> char" where
  "hexDigit n = ''0123456789ABCDEF'' ! (n mod 16)"

definition percentByte :: "nat \<Rightarrow> string" where
  "percentByte b = [CHR ''%'', hexDigit (b div 16), hexDigit b]"

definition encodeUnit :: "char \<Rightarrow> string" where
  "encodeUnit c =
     (let u = (of_char c :: nat) in
      if isUnreserved c then [c]
      else if u < 128 then percentByte u
      else percentByte (192 + u div 64) @ percentByte (128 + u mod 64))"

definition encodeURIComponent :: "string \<Rightarrow> string" where
  "encodeURIComponent s = concat (map encodeUnit s)"

definition packageOverviewLink :: "string \<Rightarrow> string \<Rightarrow> string" where
  "packageOverviewLink packageName version =
     (let packageNameUri = encodeURIComponent packageName;
          versionUri = encodeURIComponent version
      in ''/package/'' @ packageNameUri @ ''/version/'' @ versionUri @ ''/overview'')"

text \<open>The object \<^verbatim>\<open>{ name, link }\<close> that \<^verbatim>\<open>prepareModuleForView\<close> returns.\<close>

record moduleLink =
  link_name :: string
  link :: string

definition prepareModuleForView :: "string \<Rightarrow> string \<Rightarrow> string \<Rightarrow> moduleLink" where
  "prepareModuleForView packageName version moduleName =
     (let packageNameUri = encodeURIComponent packageName;
          versionUri = encodeURIComponent version;
          moduleUri = encodeURIComponent moduleName
      in \<lparr>link_name = moduleName,
          link = ''/package/'' @ packageNameUri @ ''/version/'' @ versionUri @
                 ''/module/'' @ moduleUri\<rparr>)"

text \<open>
  The field \<^verbatim>\<open>exposed-modules\<close> of the parsed metadata: an array of module names, an
  object from group names to arrays of module names, or nothing. An object is the list
  of its properties in the order of their creation, with distinct keys; for the object
  that \<^verbatim>\<open>JSON.parse\<close> builds this is the order in which the text writes them.
\<close>

datatype exposedModules =
    ModuleList "string list"
  | ModuleGroups "(string \<times> string list) list"
  | NoModules

record metadataObj =
  exposed_modules :: exposedModules

text \<open>
  \<^verbatim>\<open>Object.entries(obj)\<close> lists the properties in the order of the language: first
  those whose key is an array index, the decimal numeral without leading zeros of a
  number below \<open>4294967295\<close>, in ascending order of the number; then the others in the
  order of their creation.
\<close>

definition isArrayIndex :: "string \<Rightarrow> bool" where
  "isArrayIndex k \<longleftrightarrow>
     k \<noteq> [] \<and> list_all isDigit k \<and> (if take 1 k = ''0'' then k = ''0'' else True) \<and>
     toNumber k < 4294967295"

definition Object_entries :: "(string \<times> 'v) list \<Rightarrow> (string \<times> 'v) list" where
  "Object_entries obj =
     sort_key (\<lambda>(k, v). toNumber k) (filter (\<lambda>(k, v). isArrayIndex k) obj) @
     filter (\<lambda>(k, v). \<not> isArrayIndex k) obj"

text \<open>
  \<^verbatim>\<open>obj[key] = v\<close>: an existing property keeps its place, a new one goes last. The
  loop below assigns to existing keys only.
\<close>

fun assign :: "(string \<times> 'v) list \<Rightarrow> string \<Rightarrow> 'v \<Rightarrow> (string \<times> 'v) list" where
  "assign [] k v = [(k, v)]"
| "assign ((k', v') # ps) k v = (if k' = k then (k, v) # ps else (k', v') # assign ps k v)"

text \<open>
  The values of the object start as arrays of names and are replaced one by one by
  arrays of links, so a property holds either.
\<close>

datatype group = Names "string list" | Links "moduleLink list"

text \<open>
  The loop of \<^verbatim>\<open>prepareExposedModulesView\<close> over \<^verbatim>\<open>Object.entries(exposedModules)\<close>,
  which are listed before the loop starts: each step assigns the mapped array to its
  key. \<^verbatim>\<open>value.map\<close> exists on arrays only; the entries are all arrays of names.
  The function returns the object; who reads it lists its properties with
  \<open>Object_entries\<close>.
\<close>

fun map_entries ::
  "string \<Rightarrow> string \<Rightarrow> (string \<times> string list) list \<Rightarrow> (string \<times> group) list \<Rightarrow>
   (string \<times> group) list" where
  "map_entries packageName version [] obj = obj"
| "map_entries packageName version ((key, val) # entries) obj =
     map_entries packageName version entries
       (assign obj key (Links (map (\<lambda>m. prepareModuleForView packageName version m) val)))"

definition prepareExposedModulesView ::
  "string \<Rightarrow> string \<Rightarrow> metadataObj \<Rightarrow> error + (string \<times> group) list" where
  "prepareExposedModulesView packageName version metadataObj =
     (case exposed_modules metadataObj of
        NoModules \<Rightarrow> Inl (TypeError ''Cannot convert undefined or null to object'')
      | ModuleList names \<Rightarrow>
          Inr (map_entries packageName version (Object_entries [('''', names)])
                 [('''', Names names)])
      | ModuleGroups groups \<Rightarrow>
          Inr (map_entries packageName version (Object_entries groups)
                 (map (\<lambda>(k, v). (k, Names v)) groups)))"

text \<open>The module names of a group, in order, whether it holds names or links.\<close>

definition group_names :: "group \<Rightarrow> string list" where
  "group_names g = (case g of Names ns \<Rightarrow> ns | Links ls \<Rightarrow> map link_name ls)"

section \<open>Versions\<close>

text \<open>
  Modelled from the spec: the package \<^verbatim>\<open>semver\<close> that \<^verbatim>\<open>package.js\<close> imports is a
  dependency and not among the sources. Section 4.1 of the specification gives its
  order: major, then minor, then patch, compared as numbers; a version with a
  pre-release part comes before the same version without one; build metadata is
  ignored. A version string is \<^verbatim>\<open>MAJOR.MINOR.PATCH\<close>, then an optional \<^verbatim>\<open>-\<close> with
  dot-separated pre-release identifiers, then an optional \<^verbatim>\<open>+\<close> with dot-separated
  build identifiers; a numeric identifier has no leading zero. The specification says
  that a malformed string reaches the comparison unchanged; there the package raises
  a \<^verbatim>\<open>TypeError\<close> with the message \<^verbatim>\<open>Invalid Version:\<close> and the string, when it
  constructs the version.
\<close>

datatype ident = Numeric nat | Alphanumeric string

record SemVer =
  major :: nat
  minor :: nat
  patch :: nat
  prerelease :: "ident list"
  build :: "string list"

definition isIdentifierChar :: "char \<Rightarrow> bool" where
  "isIdentifierChar c \<longleftrightarrow>
     c \<in> set (''ABCDEFGHIJKLMNOPQRSTUVWXYZ'' @ ''abcdefghijklmnopqrstuvwxyz'' @
              ''0123456789'' @ ''-'')"

definition isNumericIdentifier :: "string \<Rightarrow> bool" where
  "isNumericIdentifier s \<longleftrightarrow>
     s \<noteq> [] \<and> list_all isDigit s \<and> (s = ''0'' \<or> take 1 s \<noteq> ''0'')"

definition isBuildIdentifier :: "string \<Rightarrow> bool" where
  "isBuildIdentifier s \<longleftrightarrow> s \<noteq> [] \<and> list_all isIdentifierChar s"

definition isPrereleaseIdentifier :: "string \<Rightarrow> bool" where
  "isPrereleaseIdentifier s \<longleftrightarrow>
     (if list_all isDigit s then isNumericIdentifier s else isBuildIdentifier s)"

definition toIdentifier :: "string \<Rightarrow> ident" where
  "toIdentifier s = (if list_all isDigit s then Numeric (toNumber s) else Alphanumeric s)"

definition semver_parse :: "string \<Rightarrow> SemVer option" where
  "semver_parse version =
     (let main_pre = takeWhile (\<lambda>c. c \<noteq> CHR ''+'') version;
          build_part = dropWhile (\<lambda>c. c \<noteq> CHR ''+'') version;
          main = takeWhile (\<lambda>c. c \<noteq> CHR ''-'') main_pre;
          pre_part = dropWhile (\<lambda>c. c \<noteq> CHR ''-'') main_pre;
          numbers = split main ''.'';
          pre = (if pre_part = [] then [] else split (tl pre_part) ''.'');
          bld = (if build_part = [] then [] else split (tl build_part) ''.'')
      in case numbers of
           [ma, mi, pa] \<Rightarrow>
             if list_all isNumericIdentifier numbers \<and> list_all isPrereleaseIdentifier pre \<and>
                list_all isBuildIdentifier bld
             then Some \<lparr>major = toNumber ma, minor = toNumber mi, patch = toNumber pa,
                        prerelease = map toIdentifier pre, build = bld\<rparr>
             else None
         | _ \<Rightarrow> None)"

definition new_SemVer :: "string \<Rightarrow> error + SemVer" where
  "new_SemVer version =
     (case semver_parse version of
        None \<Rightarrow> Inl (TypeError (''Invalid Version: '' @ version))
      | Some v \<Rightarrow> Inr v)"

text \<open>
  Two identifiers: numbers by value, a number before a text, texts by code units.
  The result is \<open>-1\<close>, \<open>0\<close> or \<open>1\<close>.
\<close>

definition compareNumbers :: "nat \<Rightarrow> nat \<Rightarrow> int" where
  "compareNumbers a b = (if a = b then 0 else if a < b then -1 else 1)"

fun compareIdentifiers :: "ident \<Rightarrow> ident \<Rightarrow> int" where
  "compareIdentifiers (Numeric a) (Numeric b) = compareNumbers a b"
| "compareIdentifiers (Numeric a) (Alphanumeric b) = -1"
| "compareIdentifiers (Alphanumeric a) (Numeric b) = 1"
| "compareIdentifiers (Alphanumeric a) (Alphanumeric b) =
     (if a = b then 0 else if a < b then -1 else 1)"

definition compareMain :: "SemVer \<Rightarrow> SemVer \<Rightarrow> int" where
  "compareMain a b =
     (if compareNumbers (major a) (major b) \<noteq> 0 then compareNumbers (major a) (major b)
      else if compareNumbers (minor a) (minor b) \<noteq> 0 then compareNumbers (minor a) (minor b)
      else compareNumbers (patch a) (patch b))"

fun comparePrereleases :: "ident list \<Rightarrow> ident list \<Rightarrow> int" where
  "comparePrereleases [] [] = 0"
| "comparePrereleases (a # as) [] = 1"
| "comparePrereleases [] (b # bs) = -1"
| "comparePrereleases (a # as) (b # bs) =
     (if a = b then comparePrereleases as bs else compareIdentifiers a b)"

definition comparePre :: "SemVer \<Rightarrow> SemVer \<Rightarrow> int" where
  "comparePre a b =
     (if prerelease a \<noteq> [] \<and> prerelease b = [] then -1
      else if prerelease a = [] \<and> prerelease b \<noteq> [] then 1
      else if prerelease a = [] \<and> prerelease b = [] then 0
      else comparePrereleases (prerelease a) (prerelease b))"

definition SemVer_compare :: "SemVer \<Rightarrow> SemVer \<Rightarrow> int" where
  "SemVer_compare a b = (if compareMain a b \<noteq> 0 then compareMain a b else comparePre a b)"

text \<open>
  \<^verbatim>\<open>semver.compare(a, b)\<close> constructs both versions, \<open>a\<close> first, and compares them;
  \<^verbatim>\<open>semver.rcompare(a, b)\<close> is \<^verbatim>\<open>compare(b, a)\<close>.
\<close>

definition semver_compare :: "string \<Rightarrow> string \<Rightarrow> error + int" where
  "semver_compare a b =
     (case new_SemVer a of
        Inl e \<Rightarrow> Inl e
      | Inr va \<Rightarrow>
          (case new_SemVer b of
             Inl e \<Rightarrow> Inl e
           | Inr vb \<Rightarrow> Inr (SemVer_compare va vb)))"

definition semver_rcompare :: "string \<Rightarrow> string \<Rightarrow> error + int" where
  "semver_rcompare a b = semver_compare b a"

text \<open>\<^verbatim>\<open>semver.gte(a, b)\<close>: whether \<open>a\<close> is greater than or equal to \<open>b\<close>.\<close>

definition semver_gte :: "string \<Rightarrow> string \<Rightarrow> error + bool" where
  "semver_gte a b =
     (case semver_compare a b of
        Inl e \<Rightarrow> Inl e
      | Inr c \<Rightarrow> Inr (0 \<le> c))"

section \<open>Sorting an array with a comparison function\<close>

text \<open>
  \<^verbatim>\<open>array.sort(comparefn)\<close>. The language fixes that the elements are compared with
  \<open>comparefn\<close> only, that an exception of \<open>comparefn\<close> ends the sort with that exception,
  and that the sort is stable. The model is the stable insertion sort: an element goes
  in front of the first element that it does not come after.
\<close>

fun sort_insert :: "('a \<Rightarrow> 'a \<Rightarrow> error + int) \<Rightarrow> 'a \<Rightarrow> 'a list \<Rightarrow> error + 'a list" where
  "sort_insert comparefn x [] = Inr [x]"
| "sort_insert comparefn x (y # ys) =
     (case comparefn x y of
        Inl e \<Rightarrow> Inl e
      | Inr c \<Rightarrow>
          if c \<le> 0 then Inr (x # y # ys)
          else (case sort_insert comparefn x ys of
                  Inl e \<Rightarrow> Inl e
                | Inr zs \<Rightarrow> Inr (y # zs)))"

fun array_sort :: "('a \<Rightarrow> 'a \<Rightarrow> error + int) \<Rightarrow> 'a list \<Rightarrow> error + 'a list" where
  "array_sort comparefn [] = Inr []"
| "array_sort comparefn (x # xs) =
     (case array_sort comparefn xs of
        Inl e \<Rightarrow> Inl e
      | Inr ys \<Rightarrow> sort_insert comparefn x ys)"

section \<open>Route handlers\<close>

text \<open>
  What the store returns are parameters of the handlers: the rows of
  \<^verbatim>\<open>packages.existingVersions\<close>, and the row of \<^verbatim>\<open>packages.getPackageOverview\<close>, which
  section 6 of the specification says is absent when the package and version have no
  stored overview (\<open>None\<close>).
\<close>

record versionRow =
  row_version :: string

record packageInfo =
  info_name :: string
  info_version :: string
  readme :: string
  metadata :: string
  docs :: string

text \<open>The values that the handlers bind to identifiers or hand to the views.\<close>

datatype jsvalue =
    JUndefined
  | JString string
  | JFunction
  | JPackageInfo packageInfo
  | JMetadata metadataObj
  | JExposedModules "(string \<times> group) list"
  | JModuleInfo moduleInfo
  | JDocumentation documentation

datatype response = Status404 | Redirect303 string | Body jsvalue

text \<open>
  Reading an identifier: the innermost binding of that name, and a
  \<^verbatim>\<open>ReferenceError\<close> when no enclosing scope declares it.
\<close>

definition read_identifier :: "(string \<times> jsvalue) list \<Rightarrow> string \<Rightarrow> error + jsvalue" where
  "read_identifier scope x =
     (case map_of scope x of
        None \<Rightarrow> Inl (ReferenceError (x @ '' is not defined''))
      | Some v \<Rightarrow> Inr v)"

text \<open>Reading a property of a value; on \<^verbatim>\<open>undefined\<close> it raises a \<^verbatim>\<open>TypeError\<close>.\<close>

definition property_of_undefined :: "string \<Rightarrow> error" where
  "property_of_undefined p =
     TypeError (''Cannot read properties of undefined (reading '' @ p @ '')'')"

definition read_property :: "jsvalue \<Rightarrow> string \<Rightarrow> error + jsvalue" where
  "read_property v p =
     (case v of
        JUndefined \<Rightarrow> Inl (property_of_undefined p)
      | JPackageInfo i \<Rightarrow>
          Inr (if p = ''name'' then JString (info_name i)
               else if p = ''version'' then JString (info_version i)
               else if p = ''readme'' then JString (readme i)
               else if p = ''metadata'' then JString (metadata i)
               else if p = ''docs'' then JString (docs i)
               else JUndefined)
      | _ \<Rightarrow> Inr JUndefined)"

text \<open>
  The bindings of the module \<^verbatim>\<open>package.js\<close>: its imports, its two constants and its
  function declarations.
\<close>

definition module_scope :: "(string \<times> jsvalue) list" where
  "module_scope =
     map (\<lambda>x. (x, JFunction))
       [''Router'', ''semver'', ''MarkdownIt'', ''views'', ''packages'', ''router'',
        ''markdown'', ''packageOverviewLink'', ''prepareExposedModulesView'',
        ''prepareModuleForView'', ''prepareModuleDocumentation'', ''Markdown'', ''Value'',
        ''Binop'', ''Union'', ''Alias'', ''constructValue'', ''findByName'']"

text \<open>
  Modelled from the spec: \<^verbatim>\<open>views.render\<close> is not among the sources. By sections 4.5
  and 6 of the specification the negotiated format is one of markup, structured and
  text, structured when none is given, and exactly one of the three shaping functions
  runs; its value is the body of the response.
\<close>

datatype format = Markup | Structured | PlainText

definition views_render ::
  "format option \<Rightarrow> (unit \<Rightarrow> error + jsvalue) \<Rightarrow> (unit \<Rightarrow> error + jsvalue) \<Rightarrow>
   (unit \<Rightarrow> error + jsvalue) \<Rightarrow> error + response" where
  "views_render fmt html_fn json_fn text_fn =
     (let shaped =
        (case fmt of
           Some Markup \<Rightarrow> html_fn ()
         | Some Structured \<Rightarrow> json_fn ()
         | Some PlainText \<Rightarrow> text_fn ()
         | None \<Rightarrow> json_fn ())
      in case shaped of Inl e \<Rightarrow> Inl e | Inr v \<Rightarrow> Inr (Body v))"

text \<open>\<^verbatim>\<open>router.get("/:package")\<close>: the redirect to the overview of the latest version.\<close>

definition package_route :: "string \<Rightarrow> versionRow list \<Rightarrow> error + response" where
  "package_route packageName versionRowsOfPackage =
     (let versionsOfPackage = map row_version versionRowsOfPackage in
      if length versionsOfPackage = 0 then Inr Status404
      else
        (case array_sort semver_rcompare versionsOfPackage of
           Inl e \<Rightarrow> Inl e
         | Inr sortedVersions \<Rightarrow>
             (let latestVersion = hd sortedVersions;
                  packageNameUri = encodeURIComponent packageName;
                  versionUri = encodeURIComponent latestVersion
              in Inr (Redirect303
                   (''/package/'' @ packageNameUri @ ''/version/'' @ versionUri @
                    ''/overview'')))))"

text \<open>
  The argument of the template \<^verbatim>\<open>views.packageOverview\<close>: package name, package
  version, overview link, rendered readme and exposed modules. The template is a
  parameter of the handler.
\<close>

datatype overviewView =
  OverviewView string string string string "(string \<times> group) list"

text \<open>
  \<^verbatim>\<open>router.get("/:package/version/:version/overview")\<close>. \<open>JSON_parse\<close> is
  \<^verbatim>\<open>JSON.parse\<close> on the metadata text. The scope of the three callbacks is the
  handler's own bindings in front of those of the module. The handler reads
  \<^verbatim>\<open>packageInfo.readme\<close> first, with no test that the row is there.
\<close>

definition overview_route ::
  "(string \<Rightarrow> string) \<Rightarrow> (string \<Rightarrow> error + metadataObj) \<Rightarrow> (overviewView \<Rightarrow> string) \<Rightarrow>
   format option \<Rightarrow> string \<Rightarrow> string \<Rightarrow> packageInfo option \<Rightarrow> error + response" where
  "overview_route render JSON_parse views_packageOverview fmt packageName version packageInfo =
     (case packageInfo of
        None \<Rightarrow> Inl (property_of_undefined ''readme'')
      | Some info \<Rightarrow>
          (let renderedMarkdown = render (readme info) in
           case JSON_parse (metadata info) of
             Inl e \<Rightarrow> Inl e
           | Inr metadataObj \<Rightarrow>
               (case prepareExposedModulesView packageName version metadataObj of
                  Inl e \<Rightarrow> Inl e
                | Inr exposedModules \<Rightarrow>
                    (let scope =
                       [(''ctx'', JFunction), (''next'', JFunction),
                        (''packageName'', JString packageName),
                        (''version'', JString version),
                        (''packageInfo'', JPackageInfo info),
                        (''renderedMarkdown'', JString renderedMarkdown),
                        (''metadataObj'', JMetadata metadataObj),
                        (''exposedModules'', JExposedModules exposedModules)] @ module_scope
                     in views_render fmt
                          (\<lambda>_. Inr (JString (views_packageOverview
                             (OverviewView (info_name info) (info_version info)
                                (packageOverviewLink packageName version)
                                renderedMarkdown exposedModules))))
                          (\<lambda>_. read_identifier scope ''docs'')
                          (\<lambda>_. case read_identifier scope ''docs'' of
                                  Inl e \<Rightarrow> Inl e
                                | Inr d \<Rightarrow> read_property d ''readme'')))))"

text \<open>
  The argument of the template \<^verbatim>\<open>views.packageModule\<close>: package name, package version,
  overview link, module name, module documentation and exposed modules.
\<close>

datatype moduleView =
  ModuleView string string string string documentation "(string \<times> group) list"

text \<open>
  \<^verbatim>\<open>router.get("/:package/version/:version/module/:module")\<close>. \<open>JSON_parse_docs\<close> is
  \<^verbatim>\<open>JSON.parse\<close> on the docs text, \<open>JSON_parse\<close> on the metadata text. The handler
  reads \<^verbatim>\<open>packageInfo.docs\<close> first, with no test that the row is there.
\<close>

definition module_route ::
  "(string \<Rightarrow> string) \<Rightarrow> (string \<Rightarrow> error + moduleInfo list) \<Rightarrow>
   (string \<Rightarrow> error + metadataObj) \<Rightarrow> (moduleView \<Rightarrow> string) \<Rightarrow>
   format option \<Rightarrow> string \<Rightarrow> string \<Rightarrow> string \<Rightarrow> packageInfo option \<Rightarrow> error + response" where
  "module_route render JSON_parse_docs JSON_parse views_packageModule fmt
       packageName version moduleName packageInfo =
     (case packageInfo of
        None \<Rightarrow> Inl (property_of_undefined ''docs'')
      | Some info \<Rightarrow>
          (case JSON_parse_docs (docs info) of
             Inl e \<Rightarrow> Inl e
           | Inr parsed \<Rightarrow>
               (case find (\<lambda>m. mod_name m = moduleName) parsed of
                  None \<Rightarrow> Inr Status404
                | Some moduleInfo \<Rightarrow>
                    (case JSON_parse (metadata info) of
                       Inl e \<Rightarrow> Inl e
                     | Inr metadataObj \<Rightarrow>
                         (case prepareExposedModulesView packageName version metadataObj of
                            Inl e \<Rightarrow> Inl e
                          | Inr exposedModules \<Rightarrow>
                              (let moduleDocumentation =
                                     prepareModuleDocumentation render moduleInfo
                               in views_render fmt
                                    (\<lambda>_. Inr (JString (views_packageModule
                                       (ModuleView packageName version
                                          (packageOverviewLink packageName version)
                                          moduleName moduleDocumentation exposedModules))))
                                    (\<lambda>_. Inr (JModuleInfo moduleInfo))
                                    (\<lambda>_. Inr (JDocumentation moduleDocumentation))))))))"
section \<open>Properties of the string primitives\<close>

text \<open>
  Splitting never returns an empty array, so neither \<^verbatim>\<open>docSplit.length === 0\<close> nor
  \<^verbatim>\<open>words.length === 0\<close> holds at run time.
\<close>

lemma split_from_nonempty: "split_from sep s \<noteq> []"
  by (induction sep s rule: split_from.induct) (auto split: list.splits)

lemma split_whitespace_nonempty: "split_whitespace s \<noteq> []"
  by (induction s rule: split_whitespace.induct) (auto split: list.splits)

lemma split_nonempty: "sep \<noteq> [] \<Longrightarrow> split s sep \<noteq> []"
  by (simp add: split_def split_from_nonempty)

lemma split_from_no_separator:
  "\<not> sublist sep s \<Longrightarrow> split_from sep s = [s]"
proof (induction sep s rule: split_from.induct)
  case (1 sep)
  then show ?case by simp
next
  case (2 sep c cs)
  from 2(3) have np: "\<not> prefix sep (c # cs)"
    by (simp add: sublist_Cons_right)
  from 2(3) have "\<not> sublist sep cs"
    by (simp add: sublist_Cons_right)
  with 2(2) np have "split_from sep cs = [cs]" by simp
  with np show ?case by simp
qed

lemma split_from_first:
  "sep \<noteq> [] \<Longrightarrow>
   \<exists>rest. s = hd (split_from sep s) @ rest \<and> (rest = [] \<or> prefix sep rest) \<and>
     (\<forall>j<length (hd (split_from sep s)). \<not> prefix sep (drop j s))"
proof (induction sep s rule: split_from.induct)
  case (1 sep)
  then show ?case by simp
next
  case (2 sep c cs)
  show ?case
  proof (cases "prefix sep (c # cs)")
    case True
    then show ?thesis by simp
  next
    case False
    from 2(2)[OF False 2(3)] obtain rest where r: "cs = hd (split_from sep cs) @ rest"
      "rest = [] \<or> prefix sep rest" "\<forall>j<length (hd (split_from sep cs)). \<not> prefix sep (drop j cs)"
      by blast
    obtain w ws where w: "split_from sep cs = w # ws"
      using split_from_nonempty[of sep cs] by (cases "split_from sep cs") auto
    have h: "hd (split_from sep (c # cs)) = c # w" using False w by simp
    have "\<forall>j<length (c # w). \<not> prefix sep (drop j (c # cs))"
    proof (intro allI impI)
      fix j assume "j < length (c # w)"
      then show "\<not> prefix sep (drop j (c # cs))"
        using False r(3) w by (cases j) auto
    qed
    moreover have "c # cs = (c # w) @ rest" using r(1) w by simp
    ultimately show ?thesis using r(2) h by auto
  qed
qed

lemma constructValue_not_Markdown: "constructValue render mi n \<noteq> Some (Markdown h)"
  by (simp add: constructValue_def new_Value_def new_Binop_def new_Union_def new_Alias_def
      split: option.splits)

lemma block_nodes_head:
  "\<exists>more. block_nodes render mi b =
     constructValue render mi (hd (split_whitespace (trim b))) # more"
  using split_whitespace_nonempty[of "trim b"]
  by (auto simp: block_nodes_def Let_def split: list.splits)

lemma parts_head:
  assumes "concat (map (block_nodes render mi) bs) = e # es"
  shows "\<exists>n. e = constructValue render mi n"
proof (cases bs)
  case Nil
  with assms show ?thesis by simp
next
  case (Cons b bs')
  obtain more where "block_nodes render mi b =
     constructValue render mi (hd (split_whitespace (trim b))) # more"
    using block_nodes_head by blast
  with Cons assms show ?thesis by auto
qed

section \<open>Symbol resolution\<close>

lemma findByName_first:
  "list = pre @ d # post \<Longrightarrow> name d = n \<Longrightarrow> \<forall>e\<in>set pre. name e \<noteq> n \<Longrightarrow>
   findByName list n = Some d"
  by (induction pre arbitrary: list) (auto simp: findByName_def)

lemma findByName_absent:
  "\<forall>e\<in>set list. name e \<noteq> n \<Longrightarrow> findByName list n = None"
  by (simp add: findByName_def find_None_iff)

text \<open>
  Claim C7. \<^verbatim>\<open>constructValue\<close> searches \<^verbatim>\<open>values\<close>, \<^verbatim>\<open>binops\<close>, \<^verbatim>\<open>unions\<close> and
  \<^verbatim>\<open>aliases\<close> in this order and builds its node from the first entry whose name is
  the query, compared as it stands: an entry of \<^verbatim>\<open>values\<close> wins whatever the later
  tables hold, an entry of a later table is used only when no earlier table has the
  name, and the result is \<^verbatim>\<open>undefined\<close> when no table has it.
\<close>

theorem constructValue_table_order:
  "(\<forall>pre d post.
      mod_values mi = pre @ d # post \<and> name d = n \<and> (\<forall>e\<in>set pre. name e \<noteq> n) \<longrightarrow>
      constructValue render mi n = Some (Value n (render (comment d)) (type d))) \<and>
   (\<forall>pre d post.
      (\<forall>e\<in>set (mod_values mi). name e \<noteq> n) \<and>
      binops mi = pre @ d # post \<and> name d = n \<and> (\<forall>e\<in>set pre. name e \<noteq> n) \<longrightarrow>
      constructValue render mi n = Some (Binop n (render (comment d)) (type d))) \<and>
   (\<forall>pre d post.
      (\<forall>e\<in>set (mod_values mi @ binops mi). name e \<noteq> n) \<and>
      unions mi = pre @ d # post \<and> name d = n \<and> (\<forall>e\<in>set pre. name e \<noteq> n) \<longrightarrow>
      constructValue render mi n = Some (Union n (render (comment d)) (args d) (tags d))) \<and>
   (\<forall>pre d post.
      (\<forall>e\<in>set (mod_values mi @ binops mi @ unions mi). name e \<noteq> n) \<and>
      aliases mi = pre @ d # post \<and> name d = n \<and> (\<forall>e\<in>set pre. name e \<noteq> n) \<longrightarrow>
      constructValue render mi n = Some (Alias n (render (comment d)) (args d) (type d))) \<and>
   ((\<forall>e\<in>set (mod_values mi @ binops mi @ unions mi @ aliases mi). name e \<noteq> n) \<longrightarrow>
      constructValue render mi n = None)"
proof (intro conjI allI impI)
  fix pre d post
  assume "mod_values mi = pre @ d # post \<and> name d = n \<and> (\<forall>e\<in>set pre. name e \<noteq> n)"
  then have "findByName (mod_values mi) n = Some d"
    using findByName_first by blast
  then show "constructValue render mi n = Some (Value n (render (comment d)) (type d))"
    by (simp add: constructValue_def new_Value_def)
next
  fix pre d post
  assume a: "(\<forall>e\<in>set (mod_values mi). name e \<noteq> n) \<and>
      binops mi = pre @ d # post \<and> name d = n \<and> (\<forall>e\<in>set pre. name e \<noteq> n)"
  then have "findByName (mod_values mi) n = None"
    by (simp add: findByName_absent)
  moreover from a have "findByName (binops mi) n = Some d"
    using findByName_first by blast
  ultimately show "constructValue render mi n = Some (Binop n (render (comment d)) (type d))"
    by (simp add: constructValue_def new_Binop_def)
next
  fix pre d post
  assume a: "(\<forall>e\<in>set (mod_values mi @ binops mi). name e \<noteq> n) \<and>
      unions mi = pre @ d # post \<and> name d = n \<and> (\<forall>e\<in>set pre. name e \<noteq> n)"
  then have "findByName (mod_values mi) n = None" "findByName (binops mi) n = None"
    by (simp_all add: findByName_absent)
  moreover from a have "findByName (unions mi) n = Some d"
    using findByName_first by blast
  ultimately show
    "constructValue render mi n = Some (Union n (render (comment d)) (args d) (tags d))"
    by (simp add: constructValue_def new_Union_def)
next
  fix pre d post
  assume a: "(\<forall>e\<in>set (mod_values mi @ binops mi @ unions mi). name e \<noteq> n) \<and>
      aliases mi = pre @ d # post \<and> name d = n \<and> (\<forall>e\<in>set pre. name e \<noteq> n)"
  then have "findByName (mod_values mi) n = None" "findByName (binops mi) n = None"
    "findByName (unions mi) n = None"
    by (simp_all add: findByName_absent)
  moreover from a have "findByName (aliases mi) n = Some d"
    using findByName_first by blast
  ultimately show
    "constructValue render mi n = Some (Alias n (render (comment d)) (args d) (type d))"
    by (simp add: constructValue_def new_Alias_def)
next
  assume a: "\<forall>e\<in>set (mod_values mi @ binops mi @ unions mi @ aliases mi). name e \<noteq> n"
  then have "findByName (mod_values mi) n = None" "findByName (binops mi) n = None"
    "findByName (unions mi) n = None" "findByName (aliases mi) n = None"
    by (simp_all add: findByName_absent)
  then show "constructValue render mi n = None"
    by (simp add: constructValue_def)
qed

text \<open>
  With \<^verbatim>\<open>add\<close> both in \<^verbatim>\<open>values\<close> (second entry) and in \<^verbatim>\<open>binops\<close>, the node is
  the value; \<^verbatim>\<open>Add\<close> is in no table.
\<close>

theorem constructValue_table_order_witness:
  "constructValue (\<lambda>s. s)
     \<lparr>mod_name = ''M'', mod_comment = '''',
      mod_values = [\<lparr>name = ''map'', comment = ''a'', type = ''t1'', args = [], tags = []\<rparr>,
                    \<lparr>name = ''add'', comment = ''value'', type = ''Int'', args = [], tags = []\<rparr>],
      binops = [\<lparr>name = ''add'', comment = ''operator'', type = ''Op'', args = [], tags = []\<rparr>],
      unions = [], aliases = []\<rparr> ''add''
   = Some (Value ''add'' ''value'' ''Int'') \<and>
   constructValue (\<lambda>s. s)
     \<lparr>mod_name = ''M'', mod_comment = '''',
      mod_values = [\<lparr>name = ''map'', comment = ''a'', type = ''t1'', args = [], tags = []\<rparr>,
                    \<lparr>name = ''add'', comment = ''value'', type = ''Int'', args = [], tags = []\<rparr>],
      binops = [\<lparr>name = ''add'', comment = ''operator'', type = ''Op'', args = [], tags = []\<rparr>],
      unions = [], aliases = []\<rparr> ''Add''
   = None"
proof -
  let ?m = "\<lparr>name = ''map'', comment = ''a'', type = ''t1'', args = [], tags = []\<rparr>"
  let ?v = "\<lparr>name = ''add'', comment = ''value'', type = ''Int'', args = [], tags = []\<rparr>"
  let ?b = "\<lparr>name = ''add'', comment = ''operator'', type = ''Op'', args = [], tags = []\<rparr>"
  let ?mi = "\<lparr>mod_name = ''M'', mod_comment = '''', mod_values = [?m, ?v], binops = [?b],
      unions = [], aliases = []\<rparr>"
  note t = constructValue_table_order [of ?mi _ "\<lambda>s. s"]
  have "mod_values ?mi = [?m] @ ?v # [] \<and> name ?v = ''add'' \<and> (\<forall>e\<in>set [?m]. name e \<noteq> ''add'')"
    by simp
  with t [of "''add''"] have 1: "constructValue (\<lambda>s. s) ?mi ''add'' = Some (Value ''add'' ''value'' ''Int'')"
    by (metis symbol_record.select_convs(2,3))
  have "\<forall>e\<in>set (mod_values ?mi @ binops ?mi @ unions ?mi @ aliases ?mi). name e \<noteq> ''Add''"
    by simp
  with t [of "''Add''"] have 2: "constructValue (\<lambda>s. s) ?mi ''Add'' = None"
    by blast
  from 1 2 show ?thesis by simp
qed

section \<open>The documentation of a module\<close>

lemmas parser_defs =
  prepareModuleDocumentation_def docs_delimiter_def split_def block_nodes_def trim_def
  trimLeft_def slice_def isWhiteSpace_def new_Markdown_def

text \<open>
  Claim C4. On the comment \<^verbatim>\<open>"Intro text.\n@docs foo\nMore text.\n@docs bar, baz"\<close>,
  with \<^verbatim>\<open>foo\<close>, \<^verbatim>\<open>bar\<close> and \<^verbatim>\<open>baz\<close> in the values table, the result is the
  prose node of the intro, the value \<^verbatim>\<open>foo\<close>, the prose node of \<^verbatim>\<open>More text.\<close>, the
  values \<^verbatim>\<open>bar\<close> and \<^verbatim>\<open>baz\<close>, and nothing after \<^verbatim>\<open>baz\<close>. The text that the code
  hands to the renderer for the third node starts with the line feed that followed
  \<^verbatim>\<open>foo\<close>; the renderer is taken to give the same markup for it as for
  \<^verbatim>\<open>More text.\<close>, as a Markdown renderer does with a leading blank line.
\<close>

theorem example_comment_nodes:
  assumes "mod_comment mi =
      ''Intro text.'' @ [CHR 0x0A] @ ''@docs foo'' @ [CHR 0x0A] @ ''More text.'' @
      [CHR 0x0A] @ ''@docs bar, baz''"
    and "findByName (mod_values mi) ''foo'' = Some foo"
    and "findByName (mod_values mi) ''bar'' = Some bar"
    and "findByName (mod_values mi) ''baz'' = Some baz"
    and "render ([CHR 0x0A] @ ''More text.'') = render ''More text.''"
  shows "prepareModuleDocumentation render mi =
     Nodes [Some (Markdown (render ''Intro text.'')),
            Some (Value ''foo'' (render (comment foo)) (type foo)),
            Some (Markdown (render ''More text.'')),
            Some (Value ''bar'' (render (comment bar)) (type bar)),
            Some (Value ''baz'' (render (comment baz)) (type baz))]"
proof -
  have cv: "constructValue render mi ''foo'' = Some (Value ''foo'' (render (comment foo)) (type foo))"
    "constructValue render mi ''bar'' = Some (Value ''bar'' (render (comment bar)) (type bar))"
    "constructValue render mi ''baz'' = Some (Value ''baz'' (render (comment baz)) (type baz))"
    using assms(2-4) by (simp_all add: constructValue_def new_Value_def)
  have sp: "split (mod_comment mi) docs_delimiter =
      [''Intro text.'', '' foo'' @ [CHR 0x0A] @ ''More text.'', '' bar, baz'']"
    by (simp add: assms(1) split_def docs_delimiter_def)
  have b1: "block_nodes render mi ('' foo'' @ [CHR 0x0A] @ ''More text.'') =
      [Some (Value ''foo'' (render (comment foo)) (type foo)),
       Some (Markdown (render ''More text.''))]"
    using assms(5)
    by (simp add: block_nodes_def trim_def trimLeft_def slice_def isWhiteSpace_def
        new_Markdown_def cv)
  have b2: "block_nodes render mi '' bar'' =
      [Some (Value ''bar'' (render (comment bar)) (type bar))]"
    by (simp add: block_nodes_def trim_def isWhiteSpace_def cv)
  have b3: "block_nodes render mi '' baz'' =
      [Some (Value ''baz'' (render (comment baz)) (type baz))]"
    by (simp add: block_nodes_def trim_def isWhiteSpace_def cv)
  have c1: "split ('' foo'' @ [CHR 0x0A] @ ''More text.'') '','' = ['' foo'' @ [CHR 0x0A] @ ''More text.'']"
    by (simp add: split_def)
  have c2: "split '' bar, baz'' '','' = ['' bar'', '' baz'']"
    by (simp add: split_def)
  show ?thesis
    unfolding prepareModuleDocumentation_def sp
    using b1 b2 b3 c1 c2 by (simp add: new_Markdown_def)
qed

text \<open>The same with a renderer that wraps the trimmed text in a paragraph.\<close>

theorem example_comment_nodes_witness:
  "prepareModuleDocumentation (\<lambda>s. ''<p>'' @ trim s @ ''</p>'')
     \<lparr>mod_name = ''M'',
      mod_comment = ''Intro text.'' @ [CHR 0x0A] @ ''@docs foo'' @ [CHR 0x0A] @ ''More text.'' @
        [CHR 0x0A] @ ''@docs bar, baz'',
      mod_values =
        [\<lparr>name = ''foo'', comment = ''Foo.'', type = ''Int'', args = [], tags = []\<rparr>,
         \<lparr>name = ''bar'', comment = ''Bar.'', type = ''String'', args = [], tags = []\<rparr>,
         \<lparr>name = ''baz'', comment = ''Baz.'', type = ''Bool'', args = [], tags = []\<rparr>],
      binops = [], unions = [], aliases = []\<rparr> =
   Nodes [Some (Markdown ''<p>Intro text.</p>''),
          Some (Value ''foo'' ''<p>Foo.</p>'' ''Int''),
          Some (Markdown ''<p>More text.</p>''),
          Some (Value ''bar'' ''<p>Bar.</p>'' ''String''),
          Some (Value ''baz'' ''<p>Baz.</p>'' ''Bool'')]"
proof -
  let ?f = "\<lparr>name = ''foo'', comment = ''Foo.'', type = ''Int'', args = [], tags = []\<rparr>"
  let ?b = "\<lparr>name = ''bar'', comment = ''Bar.'', type = ''String'', args = [], tags = []\<rparr>"
  let ?z = "\<lparr>name = ''baz'', comment = ''Baz.'', type = ''Bool'', args = [], tags = []\<rparr>"
  let ?mi = "\<lparr>mod_name = ''M'',
      mod_comment = ''Intro text.'' @ [CHR 0x0A] @ ''@docs foo'' @ [CHR 0x0A] @ ''More text.'' @
        [CHR 0x0A] @ ''@docs bar, baz'',
      mod_values = [?f, ?b, ?z], binops = [], unions = [], aliases = []\<rparr>"
  let ?r = "\<lambda>s. ''<p>'' @ trim s @ ''</p>''"
  have h1: "mod_comment ?mi =
      ''Intro text.'' @ [CHR 0x0A] @ ''@docs foo'' @ [CHR 0x0A] @ ''More text.'' @
      [CHR 0x0A] @ ''@docs bar, baz''" by simp
  have h2: "findByName (mod_values ?mi) ''foo'' = Some ?f" by (simp add: findByName_def)
  have h3: "findByName (mod_values ?mi) ''bar'' = Some ?b" by (simp add: findByName_def)
  have h4: "findByName (mod_values ?mi) ''baz'' = Some ?z" by (simp add: findByName_def)
  have h5: "?r ([CHR 0x0A] @ ''More text.'') = ?r ''More text.''"
    by (simp add: trim_def isWhiteSpace_def)
  show ?thesis
    using example_comment_nodes [of ?mi ?f ?b ?z ?r, OF h1 h2 h3 h4 h5]
    by (simp add: trim_def isWhiteSpace_def)
qed

text \<open>
  Claim C6. For every comment the result is an array whose first entry is the prose
  node of the intro, the text in front of the first delimiter (all of the comment when
  there is none), also when the intro is empty; the entry after it, if any, is not a
  prose node. Without a delimiter in the comment the result is that one prose node of
  the whole comment.
\<close>

theorem intro_is_first_node:
  "(\<exists>intro rest parts.
      mod_comment mi = intro @ rest \<and>
      (rest = [] \<or> prefix docs_delimiter rest) \<and>
      (\<forall>j<length intro. \<not> prefix docs_delimiter (drop j (mod_comment mi))) \<and>
      prepareModuleDocumentation render mi = Nodes (Some (Markdown (render intro)) # parts) \<and>
      (case parts of [] \<Rightarrow> True | e # _ \<Rightarrow> \<forall>h. e \<noteq> Some (Markdown h))) \<and>
   (\<not> sublist docs_delimiter (mod_comment mi) \<longrightarrow>
      prepareModuleDocumentation render mi = Nodes [Some (Markdown (render (mod_comment mi)))])"
proof
  have ne: "docs_delimiter \<noteq> []" by (simp add: docs_delimiter_def)
  obtain first blocks where fb: "split_from docs_delimiter (mod_comment mi) = first # blocks"
    using split_from_nonempty [of docs_delimiter "mod_comment mi"]
    by (cases "split_from docs_delimiter (mod_comment mi)") auto
  from split_from_first [OF ne, of "mod_comment mi"] fb
  obtain rest where r: "mod_comment mi = first @ rest"
    "rest = [] \<or> prefix docs_delimiter rest"
    "\<forall>j<length first. \<not> prefix docs_delimiter (drop j (mod_comment mi))"
    by auto
  define parts where
    "parts = concat (map (block_nodes render mi) (concat (map (\<lambda>p. split p '','') blocks)))"
  have p: "prepareModuleDocumentation render mi = Nodes (Some (Markdown (render first)) # parts)"
    using fb ne by (simp add: prepareModuleDocumentation_def split_def new_Markdown_def parts_def)
  have "case parts of [] \<Rightarrow> True | e # _ \<Rightarrow> \<forall>h. e \<noteq> Some (Markdown h)"
  proof (cases parts)
    case Nil
    then show ?thesis by simp
  next
    case (Cons e es)
    then have "concat (map (block_nodes render mi)
        (concat (map (\<lambda>p. split p '','') blocks))) = e # es"
      by (simp only: parts_def)
    then obtain n where "e = constructValue render mi n"
      using parts_head by blast
    with Cons show ?thesis by (simp add: constructValue_not_Markdown)
  qed
  with r p show "\<exists>intro rest parts.
      mod_comment mi = intro @ rest \<and>
      (rest = [] \<or> prefix docs_delimiter rest) \<and>
      (\<forall>j<length intro. \<not> prefix docs_delimiter (drop j (mod_comment mi))) \<and>
      prepareModuleDocumentation render mi = Nodes (Some (Markdown (render intro)) # parts) \<and>
      (case parts of [] \<Rightarrow> True | e # _ \<Rightarrow> \<forall>h. e \<noteq> Some (Markdown h))"
    by blast
next
  show "\<not> sublist docs_delimiter (mod_comment mi) \<longrightarrow>
      prepareModuleDocumentation render mi = Nodes [Some (Markdown (render (mod_comment mi)))]"
  proof
    assume "\<not> sublist docs_delimiter (mod_comment mi)"
    then have "split_from docs_delimiter (mod_comment mi) = [mod_comment mi]"
      by (rule split_from_no_separator)
    then show "prepareModuleDocumentation render mi = Nodes [Some (Markdown (render (mod_comment mi)))]"
      by (simp add: prepareModuleDocumentation_def split_def new_Markdown_def docs_delimiter_def)
  qed
qed

text \<open>
  A comment without a delimiter, and a comment that starts with the delimiter, whose
  intro is empty.
\<close>

theorem intro_is_first_node_witness:
  "\<not> sublist docs_delimiter ''Just prose.'' \<and>
   prepareModuleDocumentation (\<lambda>s. s)
     \<lparr>mod_name = ''M'', mod_comment = ''Just prose.'', mod_values = [], binops = [],
      unions = [], aliases = []\<rparr> = Nodes [Some (Markdown ''Just prose.'')] \<and>
   (\<exists>parts. prepareModuleDocumentation (\<lambda>s. s)
     \<lparr>mod_name = ''M'', mod_comment = docs_delimiter @ '' foo'', mod_values = [], binops = [],
      unions = [], aliases = []\<rparr> = Nodes (Some (Markdown '''') # parts))"
proof -
  have h: "\<not> sublist docs_delimiter ''Just prose.''"
    by (simp add: docs_delimiter_def sublist_Cons_right)
  then have first: "prepareModuleDocumentation (\<lambda>s. s)
     \<lparr>mod_name = ''M'', mod_comment = ''Just prose.'', mod_values = [], binops = [],
      unions = [], aliases = []\<rparr> = Nodes [Some (Markdown ''Just prose.'')]"
    using intro_is_first_node [of "\<lparr>mod_name = ''M'', mod_comment = ''Just prose.'',
      mod_values = [], binops = [], unions = [], aliases = []\<rparr>" "\<lambda>s. s"]
    by simp
  let ?mi = "\<lparr>mod_name = ''M'', mod_comment = docs_delimiter @ '' foo'', mod_values = [],
      binops = [], unions = [], aliases = []\<rparr>"
  from intro_is_first_node [of ?mi "\<lambda>s. s"]
  obtain intro parts where
    i: "\<forall>j<length intro. \<not> prefix docs_delimiter (drop j (mod_comment ?mi))"
    and p: "prepareModuleDocumentation (\<lambda>s. s) ?mi = Nodes (Some (Markdown intro) # parts)"
    by blast
  have "intro = []"
  proof (rule ccontr)
    assume "intro \<noteq> []"
    then have "0 < length intro" by simp
    with i have "\<not> prefix docs_delimiter (drop 0 (mod_comment ?mi))" by blast
    then show False by simp
  qed
  with p have "\<exists>parts. prepareModuleDocumentation (\<lambda>s. s) ?mi =
      Nodes (Some (Markdown '''') # parts)"
    by blast
  with h first show ?thesis by blast
qed

text \<open>
  A block always contributes an entry: the guard \<^verbatim>\<open>words.length === 0\<close> never holds.
  A block that is blank after trimming looks the empty name up; a name that no table
  has leaves \<^verbatim>\<open>undefined\<close> in the array.
\<close>

lemma block_nodes_never_empty: "block_nodes render mi block \<noteq> []"
  using block_nodes_head [of render mi block] by auto

lemma block_nodes_blank:
  "trim block = [] \<Longrightarrow> block_nodes render mi block = [constructValue render mi []]"
  by (simp add: block_nodes_def)

lemma block_nodes_unresolved:
  "constructValue render mi (hd (split_whitespace (trim block))) = None \<Longrightarrow>
   hd (block_nodes render mi block) = None"
  using block_nodes_head [of render mi block] by auto

text \<open>
  Claim C5. A block that is empty after trimming should contribute nothing. On the
  comment \<^verbatim>\<open>"Intro.\n@docs foo, bar,"\<close> the empty block behind the last comma
  contributes an entry, \<^verbatim>\<open>undefined\<close>, after the nodes of \<^verbatim>\<open>foo\<close> and \<^verbatim>\<open>bar\<close>.
\<close>

theorem empty_block_contributes_entry:
  "prepareModuleDocumentation render
     \<lparr>mod_name = ''M'', mod_comment = ''Intro.'' @ [CHR 0x0A] @ ''@docs foo, bar,'',
      mod_values =
        [\<lparr>name = ''foo'', comment = ''Foo.'', type = ''Int'', args = [], tags = []\<rparr>,
         \<lparr>name = ''bar'', comment = ''Bar.'', type = ''String'', args = [], tags = []\<rparr>],
      binops = [], unions = [], aliases = []\<rparr> =
   Nodes [Some (Markdown (render ''Intro.'')),
          Some (Value ''foo'' (render ''Foo.'') ''Int''),
          Some (Value ''bar'' (render ''Bar.'') ''String''),
          None]"
  by (simp add: parser_defs constructValue_def findByName_def new_Value_def)

section \<open>The index of exposed modules\<close>

text \<open>
  Assigning to a key that the object has keeps the key in its place, and every key is
  listed once, so after the loop each property holds the links of its names and none
  has moved.
\<close>

lemma assign_mapped:
  "distinct (map fst gs) \<Longrightarrow> (k, ns) \<in> set gs \<Longrightarrow>
   assign (map (\<lambda>(k', ns'). (k', h k' ns')) gs) k x =
   map (\<lambda>(k', ns'). (k', if k' = k then x else h k' ns')) gs"
proof (induction gs)
  case Nil
  then show ?case by simp
next
  case (Cons g gs)
  obtain k0 ns0 where g: "g = (k0, ns0)" by (cases g)
  show ?case
  proof (cases "k0 = k")
    case True
    with Cons.prems g have "k \<notin> fst ` set gs" by auto
    then have "map (\<lambda>(k', ns'). (k', if k' = k then x else h k' ns')) gs =
        map (\<lambda>(k', ns'). (k', h k' ns')) gs"
      by (intro map_cong) (auto simp: rev_image_eqI)
    with True g show ?thesis by simp
  next
    case False
    with Cons.prems g have "distinct (map fst gs)" "(k, ns) \<in> set gs" by auto
    from Cons.IH [OF this] False g show ?thesis by simp
  qed
qed

lemma map_entries_done:
  assumes "distinct (map fst gs)" and "set es \<subseteq> set gs"
  shows "map_entries p v es
     (map (\<lambda>(k, ns). (k, if k \<in> D then Links (map (prepareModuleForView p v) ns)
                          else Names ns)) gs) =
   map (\<lambda>(k, ns). (k, if k \<in> D \<union> fst ` set es
                       then Links (map (prepareModuleForView p v) ns) else Names ns)) gs"
  using assms(2)
proof (induction es arbitrary: D)
  case Nil
  then show ?case by simp
next
  case (Cons e es)
  obtain k ns where e: "e = (k, ns)" by (cases e)
  with Cons.prems have mem: "(k, ns) \<in> set gs" and rest: "set es \<subseteq> set gs" by auto
  let ?f = "prepareModuleForView p v"
  have "assign (map (\<lambda>(k', ns'). (k', if k' \<in> D then Links (map ?f ns') else Names ns')) gs)
          k (Links (map ?f ns)) =
        map (\<lambda>(k', ns'). (k', if k' = k then Links (map ?f ns)
               else if k' \<in> D then Links (map ?f ns') else Names ns')) gs"
    using assign_mapped [OF assms(1) mem,
        of "\<lambda>k' ns'. if k' \<in> D then Links (map ?f ns') else Names ns'"]
    by simp
  also have "\<dots> = map (\<lambda>(k', ns'). (k', if k' \<in> insert k D then Links (map ?f ns')
               else Names ns')) gs"
  proof (intro map_cong refl)
    fix g assume g: "g \<in> set gs"
    obtain k' ns' where kn: "g = (k', ns')" by (cases g)
    have "k' = k \<Longrightarrow> ns' = ns"
      using eq_key_imp_eq_value [OF assms(1), of k' ns' ns] g kn mem by simp
    with kn show "(case g of (k', ns') \<Rightarrow> (k', if k' = k then Links (map ?f ns)
               else if k' \<in> D then Links (map ?f ns') else Names ns')) =
        (case g of (k', ns') \<Rightarrow> (k', if k' \<in> insert k D then Links (map ?f ns')
               else Names ns'))"
      by auto
  qed
  finally have step: "assign (map (\<lambda>(k', ns'). (k', if k' \<in> D then Links (map ?f ns')
          else Names ns')) gs) k (Links (map ?f ns)) =
      map (\<lambda>(k', ns'). (k', if k' \<in> insert k D then Links (map ?f ns') else Names ns')) gs" .
  have "insert k D \<union> fst ` set es = D \<union> fst ` set (e # es)"
    using e by auto
  with Cons.IH [OF rest, of "insert k D"] step e show ?case by simp
qed

lemma set_Object_entries: "set (Object_entries obj) = set obj"
  by (auto simp: Object_entries_def)

lemma Object_entries_no_index:
  "\<forall>k\<in>set (map fst obj). \<not> isArrayIndex k \<Longrightarrow> Object_entries obj = obj"
proof -
  assume a: "\<forall>k\<in>set (map fst obj). \<not> isArrayIndex k"
  then have "filter (\<lambda>(k, v). isArrayIndex k) obj = []"
    by (auto simp: filter_empty_conv)
  moreover from a have "filter (\<lambda>(k, v). \<not> isArrayIndex k) obj = obj"
    by (auto simp: filter_id_conv)
  ultimately show ?thesis by (simp add: Object_entries_def)
qed

lemma map_entries_all:
  assumes "distinct (map fst groups)"
  shows "map_entries p v (Object_entries groups) (map (\<lambda>(k, ns). (k, Names ns)) groups) =
     map (\<lambda>(k, ns). (k, Links (map (prepareModuleForView p v) ns))) groups"
proof -
  have "map_entries p v (Object_entries groups)
      (map (\<lambda>(k, ns). (k, if k \<in> {} then Links (map (prepareModuleForView p v) ns)
                          else Names ns)) groups) =
    map (\<lambda>(k, ns). (k, if k \<in> {} \<union> fst ` set (Object_entries groups)
                       then Links (map (prepareModuleForView p v) ns) else Names ns)) groups"
    by (rule map_entries_done [OF assms]) (simp add: set_Object_entries)
  moreover have "map (\<lambda>(k, ns). (k, if k \<in> {} \<union> fst ` set (Object_entries groups)
                       then Links (map (prepareModuleForView p v) ns) else Names ns)) groups =
      map (\<lambda>(k, ns). (k, Links (map (prepareModuleForView p v) ns))) groups"
    by (intro map_cong refl) (auto simp: set_Object_entries rev_image_eqI)
  ultimately show ?thesis by simp
qed

lemma Object_entries_unnamed: "Object_entries [('''', v)] = [('''', v)]"
  by (simp add: Object_entries_def isArrayIndex_def)

lemma prepareExposedModulesView_list:
  "prepareExposedModulesView packageName version \<lparr>exposed_modules = ModuleList names\<rparr> =
     Inr [('''', Links (map (prepareModuleForView packageName version) names))]"
  by (simp add: prepareExposedModulesView_def Object_entries_unnamed)

lemma prepareExposedModulesView_groups:
  "distinct (map fst groups) \<Longrightarrow>
   prepareExposedModulesView packageName version \<lparr>exposed_modules = ModuleGroups groups\<rparr> =
     Inr (map (\<lambda>(k, ns). (k, Links (map (prepareModuleForView packageName version) ns))) groups)"
  by (simp add: prepareExposedModulesView_def map_entries_all)

text \<open>
  Mapping the values of an object does not change the order in which its properties
  are listed.
\<close>

lemma insort_key_map_values:
  "insort_key f (g x) (map g ys) = map g (insort_key (\<lambda>y. f (g y)) x ys)"
  by (induction ys) auto

lemma sort_key_map_values:
  "sort_key f (map g xs) = map g (sort_key (\<lambda>y. f (g y)) xs)"
  by (induction xs) (auto simp: insort_key_map_values)

lemma Object_entries_map_values:
  "Object_entries (map (\<lambda>(k, v). (k, h k v)) obj) =
   map (\<lambda>(k, v). (k, h k v)) (Object_entries obj)"
proof -
  have 1: "filter (\<lambda>(k, v). isArrayIndex k) (map (\<lambda>(k, v). (k, h k v)) obj) =
      map (\<lambda>(k, v). (k, h k v)) (filter (\<lambda>(k, v). isArrayIndex k) obj)"
    by (induction obj) auto
  have 2: "filter (\<lambda>(k, v). \<not> isArrayIndex k) (map (\<lambda>(k, v). (k, h k v)) obj) =
      map (\<lambda>(k, v). (k, h k v)) (filter (\<lambda>(k, v). \<not> isArrayIndex k) obj)"
    by (induction obj) auto
  have 3: "(\<lambda>y. case (case y of (k, v) \<Rightarrow> (k, h k v)) of (k, v) \<Rightarrow> toNumber k) =
      (\<lambda>(k, v). toNumber k)"
    by auto
  show ?thesis
    by (simp add: Object_entries_def 1 2 sort_key_map_values 3)
qed

text \<open>
  For every object of groups the result lists the groups as the given object does,
  groups named by an array index first, each with the links of its names in order.
\<close>

lemma groups_enumeration:
  assumes "distinct (map fst groups)"
  shows "\<exists>out.
     prepareExposedModulesView packageName version \<lparr>exposed_modules = ModuleGroups groups\<rparr> =
       Inr out \<and>
     Object_entries out =
       map (\<lambda>(k, ns). (k, Links (map (prepareModuleForView packageName version) ns)))
         (Object_entries groups)"
  using prepareExposedModulesView_groups [OF assms, of packageName version]
    Object_entries_map_values
      [of "\<lambda>k ns. Links (map (prepareModuleForView packageName version) ns)" groups]
  by simp

text \<open>
  Claim C8. An array of module names becomes the object with the one key \<^verbatim>\<open>""\<close>,
  whose value lists, in order, for each name the link built from the percent-encoded
  package name, version and module name; for example for \<^verbatim>\<open>["A.B", "C"]\<close>.
\<close>

theorem flat_list_single_group:
  "prepareExposedModulesView packageName version \<lparr>exposed_modules = ModuleList names\<rparr> =
     Inr [('''', Links (map (\<lambda>m.
            \<lparr>link_name = m,
             link = ''/package/'' @ encodeURIComponent packageName @ ''/version/'' @
                    encodeURIComponent version @ ''/module/'' @ encodeURIComponent m\<rparr>) names))] \<and>
   prepareExposedModulesView ''gren-lang/core'' ''1.0.0'' \<lparr>exposed_modules = ModuleList [''A.B'', ''C'']\<rparr> =
     Inr [('''', Links
            [\<lparr>link_name = ''A.B'', link = ''/package/gren-lang%2Fcore/version/1.0.0/module/A.B''\<rparr>,
             \<lparr>link_name = ''C'', link = ''/package/gren-lang%2Fcore/version/1.0.0/module/C''\<rparr>])]"
proof
  show "prepareExposedModulesView packageName version \<lparr>exposed_modules = ModuleList names\<rparr> =
     Inr [('''', Links (map (\<lambda>m.
            \<lparr>link_name = m,
             link = ''/package/'' @ encodeURIComponent packageName @ ''/version/'' @
                    encodeURIComponent version @ ''/module/'' @ encodeURIComponent m\<rparr>) names))]"
    by (simp add: prepareExposedModulesView_list prepareModuleForView_def)
next
  show "prepareExposedModulesView ''gren-lang/core'' ''1.0.0'' \<lparr>exposed_modules = ModuleList [''A.B'', ''C'']\<rparr> =
     Inr [('''', Links
            [\<lparr>link_name = ''A.B'', link = ''/package/gren-lang%2Fcore/version/1.0.0/module/A.B''\<rparr>,
             \<lparr>link_name = ''C'', link = ''/package/gren-lang%2Fcore/version/1.0.0/module/C''\<rparr>])]"
    by (simp add: prepareExposedModulesView_list prepareModuleForView_def encodeURIComponent_def
        encodeUnit_def isUnreserved_def percentByte_def hexDigit_def)
qed

text \<open>
  Claim C9 as stated, for every object of groups, fails when a group is named by an
  array index: for the groups written \<^verbatim>\<open>Extra\<close>, \<^verbatim>\<open>2\<close>, \<^verbatim>\<open>1\<close> the result lists
  \<^verbatim>\<open>1\<close>, \<^verbatim>\<open>2\<close>, \<^verbatim>\<open>Extra\<close>.
\<close>

theorem index_named_groups_counterexample:
  "prepareExposedModulesView ''p'' ''1.0.0''
     \<lparr>exposed_modules = ModuleGroups [(''Extra'', [''C'']), (''2'', [''B'']), (''1'', [''A''])]\<rparr> =
   Inr [(''Extra'', Links [\<lparr>link_name = ''C'', link = ''/package/p/version/1.0.0/module/C''\<rparr>]),
        (''2'', Links [\<lparr>link_name = ''B'', link = ''/package/p/version/1.0.0/module/B''\<rparr>]),
        (''1'', Links [\<lparr>link_name = ''A'', link = ''/package/p/version/1.0.0/module/A''\<rparr>])] \<and>
   Object_entries
     [(''Extra'', Links [\<lparr>link_name = ''C'', link = ''/package/p/version/1.0.0/module/C''\<rparr>]),
      (''2'', Links [\<lparr>link_name = ''B'', link = ''/package/p/version/1.0.0/module/B''\<rparr>]),
      (''1'', Links [\<lparr>link_name = ''A'', link = ''/package/p/version/1.0.0/module/A''\<rparr>])] =
     [(''1'', Links [\<lparr>link_name = ''A'', link = ''/package/p/version/1.0.0/module/A''\<rparr>]),
      (''2'', Links [\<lparr>link_name = ''B'', link = ''/package/p/version/1.0.0/module/B''\<rparr>]),
      (''Extra'', Links [\<lparr>link_name = ''C'', link = ''/package/p/version/1.0.0/module/C''\<rparr>])] \<and>
   map fst (Object_entries [(''Extra'', [''C'']), (''2'', [''B'']), (''1'', [''A''])]) =
     [''1'', ''2'', ''Extra'']"
proof (intro conjI)
  have "distinct (map fst [(''Extra'', [''C'']), (''2'', [''B'']), (''1'', [''A''])])" by simp
  from prepareExposedModulesView_groups [OF this, of "''p''" "''1.0.0''"]
  show "prepareExposedModulesView ''p'' ''1.0.0''
     \<lparr>exposed_modules = ModuleGroups [(''Extra'', [''C'']), (''2'', [''B'']), (''1'', [''A''])]\<rparr> =
   Inr [(''Extra'', Links [\<lparr>link_name = ''C'', link = ''/package/p/version/1.0.0/module/C''\<rparr>]),
        (''2'', Links [\<lparr>link_name = ''B'', link = ''/package/p/version/1.0.0/module/B''\<rparr>]),
        (''1'', Links [\<lparr>link_name = ''A'', link = ''/package/p/version/1.0.0/module/A''\<rparr>])]"
    by (simp add: prepareModuleForView_def encodeURIComponent_def
        encodeUnit_def isUnreserved_def percentByte_def hexDigit_def)
next
  show "Object_entries
     [(''Extra'', Links [\<lparr>link_name = ''C'', link = ''/package/p/version/1.0.0/module/C''\<rparr>]),
      (''2'', Links [\<lparr>link_name = ''B'', link = ''/package/p/version/1.0.0/module/B''\<rparr>]),
      (''1'', Links [\<lparr>link_name = ''A'', link = ''/package/p/version/1.0.0/module/A''\<rparr>])] =
     [(''1'', Links [\<lparr>link_name = ''A'', link = ''/package/p/version/1.0.0/module/A''\<rparr>]),
      (''2'', Links [\<lparr>link_name = ''B'', link = ''/package/p/version/1.0.0/module/B''\<rparr>]),
      (''Extra'', Links [\<lparr>link_name = ''C'', link = ''/package/p/version/1.0.0/module/C''\<rparr>])]"
    by (simp add: Object_entries_def isArrayIndex_def isDigit_def toNumber_def)
next
  show "map fst (Object_entries [(''Extra'', [''C'']), (''2'', [''B'']), (''1'', [''A''])]) =
     [''1'', ''2'', ''Extra'']"
    by (simp add: Object_entries_def isArrayIndex_def isDigit_def toNumber_def)
qed

text \<open>
  Claim C9, amended. For an object of groups of which none is named by an array
  index, the result lists the same keys in the same order, and each group lists the
  links of its module names in the order of the names.
\<close>

theorem groups_keep_order:
  assumes "distinct (map fst groups)"
    and "\<forall>k\<in>set (map fst groups). \<not> isArrayIndex k"
  shows "\<exists>out.
     prepareExposedModulesView packageName version \<lparr>exposed_modules = ModuleGroups groups\<rparr> =
       Inr out \<and>
     Object_entries out =
       map (\<lambda>(k, ns). (k, Links (map (prepareModuleForView packageName version) ns))) groups \<and>
     map fst (Object_entries out) = map fst groups \<and>
     map (\<lambda>(k, g). group_names g) (Object_entries out) = map snd groups"
proof -
  let ?out = "map (\<lambda>(k, ns). (k, Links (map (prepareModuleForView packageName version) ns))) groups"
  have r: "prepareExposedModulesView packageName version \<lparr>exposed_modules = ModuleGroups groups\<rparr> =
      Inr ?out"
    using assms(1) by (rule prepareExposedModulesView_groups)
  have keys: "map fst ?out = map fst groups"
    by (induction groups) auto
  with assms(2) have e: "Object_entries ?out = ?out"
    by (intro Object_entries_no_index) simp
  have "map (\<lambda>(k, g). group_names g) ?out = map snd groups"
    by (induction groups) (auto simp: group_names_def prepareModuleForView_def o_def)
  with r e keys show ?thesis by auto
qed

text \<open>The groups \<^verbatim>\<open>Core\<close> and \<^verbatim>\<open>Extra\<close>.\<close>

theorem groups_keep_order_witness:
  "distinct (map fst [(''Core'', [''A'']), (''Extra'', [''B'', ''C''])]) \<and>
   \<not> isArrayIndex ''Core'' \<and> \<not> isArrayIndex ''Extra'' \<and>
   (\<exists>out. prepareExposedModulesView ''p'' ''1.0.0''
       \<lparr>exposed_modules = ModuleGroups [(''Core'', [''A'']), (''Extra'', [''B'', ''C''])]\<rparr> =
       Inr out \<and>
     Object_entries out =
       [(''Core'', Links [\<lparr>link_name = ''A'', link = ''/package/p/version/1.0.0/module/A''\<rparr>]),
        (''Extra'', Links [\<lparr>link_name = ''B'', link = ''/package/p/version/1.0.0/module/B''\<rparr>,
                          \<lparr>link_name = ''C'', link = ''/package/p/version/1.0.0/module/C''\<rparr>])])"
proof -
  have d: "distinct (map fst [(''Core'', [''A'']), (''Extra'', [''B'', ''C''])])" by simp
  have n: "\<not> isArrayIndex ''Core''" "\<not> isArrayIndex ''Extra''"
    by (simp_all add: isArrayIndex_def isDigit_def)
  then have a: "\<forall>k\<in>set (map fst [(''Core'', [''A'']), (''Extra'', [''B'', ''C''])]). \<not> isArrayIndex k"
    by simp
  from groups_keep_order [OF d a, of "''p''" "''1.0.0''"]
  obtain out where out: "prepareExposedModulesView ''p'' ''1.0.0''
       \<lparr>exposed_modules = ModuleGroups [(''Core'', [''A'']), (''Extra'', [''B'', ''C''])]\<rparr> =
       Inr out"
    "Object_entries out =
       map (\<lambda>(k, ns). (k, Links (map (prepareModuleForView ''p'' ''1.0.0'') ns)))
         [(''Core'', [''A'']), (''Extra'', [''B'', ''C''])]"
    by blast
  from out(2) have "Object_entries out =
       [(''Core'', Links [\<lparr>link_name = ''A'', link = ''/package/p/version/1.0.0/module/A''\<rparr>]),
        (''Extra'', Links [\<lparr>link_name = ''B'', link = ''/package/p/version/1.0.0/module/B''\<rparr>,
                          \<lparr>link_name = ''C'', link = ''/package/p/version/1.0.0/module/C''\<rparr>])]"
    by (simp add: prepareModuleForView_def encodeURIComponent_def
        encodeUnit_def isUnreserved_def percentByte_def hexDigit_def)
  with out(1) d n show ?thesis by blast
qed

section \<open>The order of versions\<close>

text \<open>
  The comparison of two parsed versions is antisymmetric and transitive, so it is a
  total preorder; only build metadata separates two versions that compare equal.
\<close>

lemma compareIdentifiers_flip: "compareIdentifiers a b = - compareIdentifiers b a"
  by (cases a; cases b) (auto simp: compareNumbers_def)

lemma compareIdentifiers_eq: "compareIdentifiers a b = 0 \<longleftrightarrow> a = b"
  by (cases a; cases b) (auto simp: compareNumbers_def)

lemma compareIdentifiers_trans:
  "compareIdentifiers a b \<le> 0 \<Longrightarrow> compareIdentifiers b c \<le> 0 \<Longrightarrow> compareIdentifiers a c \<le> 0"
  by (cases a; cases b; cases c) (auto simp: compareNumbers_def split: if_splits)

lemma comparePrereleases_flip: "comparePrereleases xs ys = - comparePrereleases ys xs"
  by (induction xs ys rule: comparePrereleases.induct)
     (auto simp: compareIdentifiers_flip [symmetric])

lemma comparePrereleases_eq: "comparePrereleases xs ys = 0 \<longleftrightarrow> xs = ys"
  by (induction xs ys rule: comparePrereleases.induct)
     (auto simp: compareIdentifiers_eq)

lemma comparePrereleases_trans:
  "comparePrereleases xs ys \<le> 0 \<Longrightarrow> comparePrereleases ys zs \<le> 0 \<Longrightarrow>
   comparePrereleases xs zs \<le> 0"
proof (induction xs ys arbitrary: zs rule: comparePrereleases.induct)
  case 1
  then show ?case by simp
next
  case (2 a as)
  then show ?case by simp
next
  case (3 b bs)
  then show ?case by (cases zs) auto
next
  case (4 a as b bs)
  show ?case
  proof (cases zs)
    case Nil
    with 4 show ?thesis by simp
  next
    case (Cons c cs)
    show ?thesis
    proof (cases "a = b")
      case True
      with 4 Cons show ?thesis by (auto split: if_splits)
    next
      case ab: False
      with 4(2) have le1: "compareIdentifiers a b \<le> 0" by simp
      show ?thesis
      proof (cases "b = c")
        case True
        with ab le1 Cons show ?thesis by simp
      next
        case False
        with 4(3) Cons have le2: "compareIdentifiers b c \<le> 0" by simp
        have le3: "compareIdentifiers a c \<le> 0"
          using le1 le2 by (rule compareIdentifiers_trans)
        have "a \<noteq> c"
        proof
          assume "a = c"
          with le2 have "compareIdentifiers b a \<le> 0" by simp
          with le1 compareIdentifiers_flip [of a b] have "compareIdentifiers a b = 0" by simp
          with ab show False by (simp add: compareIdentifiers_eq)
        qed
        with le3 Cons show ?thesis by simp
      qed
    qed
  qed
qed

lemma comparePre_flip: "comparePre a b = - comparePre b a"
  using comparePrereleases_flip [of "prerelease a" "prerelease b"]
  by (simp add: comparePre_def)

lemma comparePre_trans:
  "comparePre a b \<le> 0 \<Longrightarrow> comparePre b c \<le> 0 \<Longrightarrow> comparePre a c \<le> 0"
  using comparePrereleases_trans [of "prerelease a" "prerelease b" "prerelease c"]
  by (auto simp: comparePre_def split: if_splits)

lemma compareMain_flip: "compareMain a b = - compareMain b a"
  by (auto simp: compareMain_def compareNumbers_def)

lemma compareMain_trans:
  "compareMain a b \<le> 0 \<Longrightarrow> compareMain b c \<le> 0 \<Longrightarrow> compareMain a c \<le> 0"
  by (auto simp: compareMain_def compareNumbers_def split: if_splits)

lemma compareMain_zero:
  "compareMain a b = 0 \<longleftrightarrow> major a = major b \<and> minor a = minor b \<and> patch a = patch b"
  by (auto simp: compareMain_def compareNumbers_def)

lemma SemVer_compare_flip: "SemVer_compare a b = - SemVer_compare b a"
  using compareMain_flip [of a b] comparePre_flip [of a b]
  by (simp add: SemVer_compare_def)

lemma SemVer_compare_refl: "SemVer_compare a a = 0"
  using SemVer_compare_flip [of a a] by simp

lemma SemVer_compare_trans:
  assumes "SemVer_compare a b \<le> 0" and "SemVer_compare b c \<le> 0"
  shows "SemVer_compare a c \<le> 0"
proof -
  have ab: "compareMain a b \<le> 0" and bc: "compareMain b c \<le> 0"
    using assms by (auto simp: SemVer_compare_def split: if_splits)
  have ac: "compareMain a c \<le> 0" using ab bc by (rule compareMain_trans)
  show ?thesis
  proof (cases "compareMain a c = 0")
    case False
    with ac show ?thesis by (simp add: SemVer_compare_def)
  next
    case True
    then have eq: "major a = major c" "minor a = minor c" "patch a = patch c"
      by (simp_all add: compareMain_zero)
    have "compareMain a b = 0"
      using ab bc eq by (auto simp: compareMain_def compareNumbers_def split: if_splits)
    moreover have "compareMain b c = 0"
      using ab bc eq by (auto simp: compareMain_def compareNumbers_def split: if_splits)
    ultimately have "comparePre a b \<le> 0" "comparePre b c \<le> 0"
      using assms by (simp_all add: SemVer_compare_def)
    then have "comparePre a c \<le> 0" by (rule comparePre_trans)
    with True show ?thesis by (simp add: SemVer_compare_def)
  qed
qed

section \<open>The latest version\<close>

text \<open>
  On strings that parse, \<^verbatim>\<open>semver.gte\<close> is reflexive and transitive, and
  \<^verbatim>\<open>semver.rcompare\<close> puts the greater of two versions first.
\<close>

lemma semver_compare_valid:
  "semver_parse a = Some va \<Longrightarrow> semver_parse b = Some vb \<Longrightarrow>
   semver_compare a b = Inr (SemVer_compare va vb)"
  by (simp add: semver_compare_def new_SemVer_def)

lemma semver_compare_invalid:
  "semver_parse a = None \<or> semver_parse b = None \<Longrightarrow> \<exists>e. semver_compare a b = Inl e"
  by (auto simp: semver_compare_def new_SemVer_def split: option.splits)

lemma semver_gte_refl: "semver_parse a \<noteq> None \<Longrightarrow> semver_gte a a = Inr True"
  by (auto simp: semver_gte_def semver_compare_valid SemVer_compare_refl)

lemma semver_gte_trans:
  assumes "semver_gte a b = Inr True" and "semver_gte b c = Inr True"
  shows "semver_gte a c = Inr True"
proof -
  from assms(1) obtain va vb where v1: "semver_parse a = Some va" "semver_parse b = Some vb"
    by (auto simp: semver_gte_def semver_compare_def new_SemVer_def
        split: option.splits sum.splits)
  from assms(2) obtain vc where v2: "semver_parse c = Some vc"
    by (auto simp: semver_gte_def semver_compare_def new_SemVer_def
        split: option.splits sum.splits)
  from assms v1 v2 have "0 \<le> SemVer_compare va vb" "0 \<le> SemVer_compare vb vc"
    by (simp_all add: semver_gte_def semver_compare_valid)
  then have "SemVer_compare vc vb \<le> 0" "SemVer_compare vb va \<le> 0"
    using SemVer_compare_flip [of va vb] SemVer_compare_flip [of vb vc] by simp_all
  then have "SemVer_compare vc va \<le> 0" by (rule SemVer_compare_trans)
  then have "0 \<le> SemVer_compare va vc"
    using SemVer_compare_flip [of va vc] by simp
  with v1 v2 show ?thesis by (simp add: semver_gte_def semver_compare_valid)
qed

lemma semver_rcompare_valid:
  assumes "semver_parse a \<noteq> None" and "semver_parse b \<noteq> None"
  shows "\<exists>c. semver_rcompare a b = Inr c \<and>
     (c \<le> 0 \<longrightarrow> semver_gte a b = Inr True) \<and> (\<not> c \<le> 0 \<longrightarrow> semver_gte b a = Inr True)"
proof -
  from assms obtain va vb where v: "semver_parse a = Some va" "semver_parse b = Some vb"
    by auto
  then have "semver_rcompare a b = Inr (SemVer_compare vb va)"
    "semver_gte a b = Inr (0 \<le> SemVer_compare va vb)"
    "semver_gte b a = Inr (0 \<le> SemVer_compare vb va)"
    by (simp_all add: semver_rcompare_def semver_gte_def semver_compare_valid)
  then show ?thesis
    using SemVer_compare_flip [of va vb] by auto
qed

text \<open>
  Sorting versions that all parse returns them in descending order, so the first one
  is greater than or equal to each of them.
\<close>

lemma sort_insert_valid:
  assumes "semver_parse x \<noteq> None" and "\<forall>y\<in>set ys. semver_parse y \<noteq> None"
    and "sorted_wrt (\<lambda>a b. semver_gte a b = Inr True) ys"
  shows "\<exists>zs. sort_insert semver_rcompare x ys = Inr zs \<and> set zs = insert x (set ys) \<and>
     sorted_wrt (\<lambda>a b. semver_gte a b = Inr True) zs"
  using assms
proof (induction ys)
  case Nil
  then show ?case by simp
next
  case (Cons y ys)
  from Cons.prems obtain c where c: "semver_rcompare x y = Inr c"
    "c \<le> 0 \<longrightarrow> semver_gte x y = Inr True" "\<not> c \<le> 0 \<longrightarrow> semver_gte y x = Inr True"
    using semver_rcompare_valid [of x y] by auto
  show ?case
  proof (cases "c \<le> 0")
    case True
    with c have xy: "semver_gte x y = Inr True" by simp
    have "\<forall>z\<in>set ys. semver_gte x z = Inr True"
    proof
      fix z assume "z \<in> set ys"
      with Cons.prems(3) have "semver_gte y z = Inr True" by simp
      with xy show "semver_gte x z = Inr True" by (rule semver_gte_trans)
    qed
    with True c xy Cons.prems(3) show ?thesis by simp
  next
    case False
    with c have yx: "semver_gte y x = Inr True" by simp
    from Cons.prems have "\<exists>zs. sort_insert semver_rcompare x ys = Inr zs \<and>
        set zs = insert x (set ys) \<and> sorted_wrt (\<lambda>a b. semver_gte a b = Inr True) zs"
      by (intro Cons.IH) simp_all
    then obtain zs where zs: "sort_insert semver_rcompare x ys = Inr zs"
      "set zs = insert x (set ys)" "sorted_wrt (\<lambda>a b. semver_gte a b = Inr True) zs"
      by blast
    have "\<forall>z\<in>set zs. semver_gte y z = Inr True"
      using zs(2) yx Cons.prems(3) by auto
    with zs c False show ?thesis by auto
  qed
qed

lemma array_sort_valid:
  assumes "\<forall>x\<in>set xs. semver_parse x \<noteq> None"
  shows "\<exists>ys. array_sort semver_rcompare xs = Inr ys \<and> set ys = set xs \<and>
     sorted_wrt (\<lambda>a b. semver_gte a b = Inr True) ys"
  using assms
proof (induction xs)
  case Nil
  then show ?case by simp
next
  case (Cons x xs)
  then obtain ys where ys: "array_sort semver_rcompare xs = Inr ys" "set ys = set xs"
    "sorted_wrt (\<lambda>a b. semver_gte a b = Inr True) ys"
    by auto
  from Cons.prems ys(2) have "semver_parse x \<noteq> None" "\<forall>y\<in>set ys. semver_parse y \<noteq> None"
    by simp_all
  from sort_insert_valid [OF this ys(3)] ys(1,2) show ?case by auto
qed

lemma latest_is_greatest:
  assumes "vs \<noteq> []" and "\<forall>v\<in>set vs. semver_parse v \<noteq> None"
  shows "\<exists>sortedVersions. array_sort semver_rcompare vs = Inr sortedVersions \<and>
     hd sortedVersions \<in> set vs \<and> (\<forall>w\<in>set vs. semver_gte (hd sortedVersions) w = Inr True)"
proof -
  from array_sort_valid [OF assms(2)] obtain ys where ys:
    "array_sort semver_rcompare vs = Inr ys" "set ys = set vs"
    "sorted_wrt (\<lambda>a b. semver_gte a b = Inr True) ys"
    by blast
  from ys(2) assms(1) obtain h t where ht: "ys = h # t" by (cases ys) auto
  have hv: "h \<in> set vs" using ht ys(2) by auto
  have "\<forall>w\<in>set vs. semver_gte h w = Inr True"
  proof
    fix w assume w: "w \<in> set vs"
    then have "w = h \<or> w \<in> set t" using ht ys(2) by auto
    then show "semver_gte h w = Inr True"
      using ys(3) ht hv assms(2) by (auto simp: semver_gte_refl)
  qed
  with ys(1) ht hv show ?thesis by simp
qed

text \<open>
  Claim C2, amended. For every non-empty list of version rows whose version strings
  all parse as semantic versions, the handler redirects to the overview of a version
  of the list that is greater than or equal to every version of the list.
\<close>

theorem latest_version_is_greatest:
  assumes "rows \<noteq> []" and "\<forall>r\<in>set rows. semver_parse (row_version r) \<noteq> None"
  shows "\<exists>latest.
     package_route packageName rows =
       Inr (Redirect303 (''/package/'' @ encodeURIComponent packageName @ ''/version/'' @
              encodeURIComponent latest @ ''/overview'')) \<and>
     latest \<in> set (map row_version rows) \<and>
     (\<forall>w\<in>set (map row_version rows). semver_gte latest w = Inr True)"
proof -
  have "map row_version rows \<noteq> []" "\<forall>v\<in>set (map row_version rows). semver_parse v \<noteq> None"
    using assms by simp_all
  from latest_is_greatest [OF this] obtain ys where ys:
    "array_sort semver_rcompare (map row_version rows) = Inr ys"
    "hd ys \<in> set (map row_version rows)"
    "\<forall>w\<in>set (map row_version rows). semver_gte (hd ys) w = Inr True"
    by blast
  have "package_route packageName rows =
       Inr (Redirect303 (''/package/'' @ encodeURIComponent packageName @ ''/version/'' @
              encodeURIComponent (hd ys) @ ''/overview''))"
    using assms(1) ys(1) by (simp add: package_route_def)
  with ys(2,3) show ?thesis by blast
qed

text \<open>The equations that evaluate the comparison and the encoding on given strings.\<close>

lemmas semver_eval =
  semver_rcompare_def semver_compare_def new_SemVer_def semver_parse_def split_def
  isNumericIdentifier_def isPrereleaseIdentifier_def isBuildIdentifier_def isIdentifierChar_def
  isDigit_def toNumber_def toIdentifier_def SemVer_compare_def compareMain_def comparePre_def
  compareNumbers_def

lemmas uri_eval =
  encodeURIComponent_def encodeUnit_def isUnreserved_def percentByte_def hexDigit_def

text \<open>The versions \<^verbatim>\<open>1.0.0\<close>, \<^verbatim>\<open>2.0.0\<close> and \<^verbatim>\<open>1.5.3\<close>: the latest is \<^verbatim>\<open>2.0.0\<close>.\<close>

lemma example_versions_sorted:
  "array_sort semver_rcompare [''1.0.0'', ''2.0.0'', ''1.5.3''] = Inr [''2.0.0'', ''1.5.3'', ''1.0.0'']"
  by (simp add: semver_eval)

theorem latest_version_is_greatest_witness:
  "package_route ''gren-lang/core''
     [\<lparr>row_version = ''1.0.0''\<rparr>, \<lparr>row_version = ''2.0.0''\<rparr>, \<lparr>row_version = ''1.5.3''\<rparr>] =
   Inr (Redirect303 ''/package/gren-lang%2Fcore/version/2.0.0/overview'') \<and>
   semver_gte ''2.0.0'' ''1.0.0'' = Inr True \<and> semver_gte ''2.0.0'' ''2.0.0'' = Inr True \<and>
   semver_gte ''2.0.0'' ''1.5.3'' = Inr True"
proof -
  let ?rows = "[\<lparr>row_version = ''1.0.0''\<rparr>, \<lparr>row_version = ''2.0.0''\<rparr>, \<lparr>row_version = ''1.5.3''\<rparr>]"
  have h1: "?rows \<noteq> []" by simp
  have h2: "\<forall>r\<in>set ?rows. semver_parse (row_version r) \<noteq> None"
    by (simp add: semver_eval)
  from latest_version_is_greatest [OF h1 h2, of "''gren-lang/core''"]
  obtain latest where l: "package_route ''gren-lang/core'' ?rows =
       Inr (Redirect303 (''/package/'' @ encodeURIComponent ''gren-lang/core'' @ ''/version/'' @
              encodeURIComponent latest @ ''/overview''))"
    "latest \<in> set (map row_version ?rows)"
    "\<forall>w\<in>set (map row_version ?rows). semver_gte latest w = Inr True"
    by blast
  have lower: "semver_gte ''1.0.0'' ''2.0.0'' = Inr False" "semver_gte ''1.5.3'' ''2.0.0'' = Inr False"
    by (simp_all add: semver_gte_def semver_eval)
  from l(2) have "latest = ''1.0.0'' \<or> latest = ''2.0.0'' \<or> latest = ''1.5.3''" by simp
  moreover from l(3) have "semver_gte latest ''2.0.0'' = Inr True" by simp
  ultimately have latest: "latest = ''2.0.0''" using lower by auto
  have "encodeURIComponent ''gren-lang/core'' = ''gren-lang%2Fcore''"
    "encodeURIComponent ''2.0.0'' = ''2.0.0''"
    by (simp_all add: uri_eval)
  with l(1,3) latest show ?thesis by simp
qed

text \<open>
  Claim C2 as stated, for every non-empty list of version strings, fails on a list
  with a string that is not a semantic version: the comparison raises and no version
  is selected.
\<close>

theorem unparsable_version_counterexample:
  "package_route ''pkg'' [\<lparr>row_version = ''1.0.0''\<rparr>, \<lparr>row_version = ''banana''\<rparr>] =
   Inl (TypeError ''Invalid Version: banana'')"
  by (simp add: package_route_def semver_eval)

text \<open>
  A comparison returns a number only if both strings parse, and the error of a sort is
  the \<^verbatim>\<open>TypeError\<close> for a string of the list that does not parse. Every element of a
  list of two or more is compared at least once, so one string that does not parse
  makes the sort raise; a single version is returned without any comparison.
\<close>

lemma semver_rcompare_error:
  "semver_rcompare a b = Inl e \<Longrightarrow>
   \<exists>v\<in>{a, b}. semver_parse v = None \<and> e = TypeError (''Invalid Version: '' @ v)"
  by (auto simp: semver_rcompare_def semver_compare_def new_SemVer_def
      split: option.splits sum.splits)

lemma semver_rcompare_result:
  "semver_rcompare a b = Inr c \<Longrightarrow> semver_parse a \<noteq> None \<and> semver_parse b \<noteq> None"
  by (auto simp: semver_rcompare_def semver_compare_def new_SemVer_def
      split: option.splits sum.splits)

lemma sort_insert_result:
  "sort_insert comparefn x ys = Inr zs \<Longrightarrow>
   set zs = insert x (set ys) \<and> length zs = Suc (length ys)"
proof (induction ys arbitrary: zs)
  case Nil
  then show ?case by auto
next
  case (Cons y ys)
  from Cons.prems obtain c where c: "comparefn x y = Inr c"
    by (cases "comparefn x y") simp_all
  show ?case
  proof (cases "c \<le> 0")
    case True
    with Cons.prems c show ?thesis by auto
  next
    case False
    with Cons.prems c obtain ws where ws: "sort_insert comparefn x ys = Inr ws" "zs = y # ws"
      by (cases "sort_insert comparefn x ys") auto
    from Cons.IH [OF ws(1)] ws(2) show ?thesis by auto
  qed
qed

lemma array_sort_result:
  "array_sort comparefn xs = Inr ys \<Longrightarrow> set ys = set xs \<and> length ys = length xs"
proof (induction xs arbitrary: ys)
  case Nil
  then show ?case by simp
next
  case (Cons x xs)
  then obtain zs where zs: "array_sort comparefn xs = Inr zs" "sort_insert comparefn x zs = Inr ys"
    by (auto split: sum.splits)
  from Cons.IH [OF zs(1)] sort_insert_result [OF zs(2)] show ?case by simp
qed

lemma sort_insert_error:
  "sort_insert semver_rcompare x ys = Inl e \<Longrightarrow>
   \<exists>v\<in>insert x (set ys). semver_parse v = None \<and> e = TypeError (''Invalid Version: '' @ v)"
proof (induction ys)
  case Nil
  then show ?case by simp
next
  case (Cons y ys)
  show ?case
  proof (cases "semver_rcompare x y")
    case (Inl e')
    with Cons.prems have "e' = e" by simp
    with Inl semver_rcompare_error [of x y e] show ?thesis by auto
  next
    case (Inr c)
    with Cons.prems have "sort_insert semver_rcompare x ys = Inl e"
      by (auto split: if_splits sum.splits)
    from Cons.IH [OF this] show ?thesis by auto
  qed
qed

lemma array_sort_error:
  "array_sort semver_rcompare xs = Inl e \<Longrightarrow>
   \<exists>v\<in>set xs. semver_parse v = None \<and> e = TypeError (''Invalid Version: '' @ v)"
proof (induction xs)
  case Nil
  then show ?case by simp
next
  case (Cons x xs)
  show ?case
  proof (cases "array_sort semver_rcompare xs")
    case (Inl e')
    with Cons.prems have "e' = e" by simp
    with Inl Cons.IH show ?thesis by auto
  next
    case (Inr ys)
    with Cons.prems have "sort_insert semver_rcompare x ys = Inl e" by simp
    from sort_insert_error [OF this] array_sort_result [OF Inr] show ?thesis by auto
  qed
qed

lemma array_sort_unparsable:
  assumes "2 \<le> length vs" and "\<exists>v\<in>set vs. semver_parse v = None"
  shows "\<exists>e. array_sort semver_rcompare vs = Inl e"
  using assms
proof (induction vs)
  case Nil
  then show ?case by simp
next
  case (Cons x xs)
  show ?case
  proof (cases "array_sort semver_rcompare (x # xs)")
    case (Inl e)
    then show ?thesis by blast
  next
    case (Inr zs)
    then obtain ys where ys: "array_sort semver_rcompare xs = Inr ys"
      "sort_insert semver_rcompare x ys = Inr zs"
      by (auto split: sum.splits)
    from array_sort_result [OF ys(1)] Cons.prems(1) obtain y ys' where y: "ys = y # ys'"
      by (cases ys) auto
    with ys(2) obtain c where "semver_rcompare x y = Inr c"
      by (auto split: sum.splits)
    then have valid: "semver_parse x \<noteq> None" "semver_parse y \<noteq> None"
      using semver_rcompare_result by blast+
    have "\<forall>v\<in>set xs. semver_parse v \<noteq> None"
    proof (cases "2 \<le> length xs")
      case True
      show ?thesis
      proof (rule ccontr)
        assume "\<not> (\<forall>v\<in>set xs. semver_parse v \<noteq> None)"
        then have "\<exists>v\<in>set xs. semver_parse v = None" by simp
        from Cons.IH [OF True this] ys(1) show False by simp
      qed
    next
      case False
      with Cons.prems(1) have "length xs = 1" by simp
      with array_sort_result [OF ys(1)] y have "set xs = {y}" by auto
      with valid show ?thesis by simp
    qed
    with valid Cons.prems(2) show ?thesis by simp
  qed
qed

lemma package_route_unparsable:
  assumes "2 \<le> length rows" and "\<exists>r\<in>set rows. semver_parse (row_version r) = None"
  shows "\<exists>v. semver_parse v = None \<and>
     package_route packageName rows = Inl (TypeError (''Invalid Version: '' @ v))"
proof -
  have "2 \<le> length (map row_version rows)" "\<exists>v\<in>set (map row_version rows). semver_parse v = None"
    using assms by auto
  from array_sort_unparsable [OF this] obtain e where
    e: "array_sort semver_rcompare (map row_version rows) = Inl e" by blast
  from array_sort_error [OF e] obtain v where "semver_parse v = None"
    "e = TypeError (''Invalid Version: '' @ v)" by blast
  with e assms(1) show ?thesis by (auto simp: package_route_def)
qed

lemma package_route_single:
  "package_route packageName [r] =
     Inr (Redirect303 (''/package/'' @ encodeURIComponent packageName @ ''/version/'' @
            encodeURIComponent (row_version r) @ ''/overview''))"
  by (simp add: package_route_def)

text \<open>
  Claim C10. There is a non-empty list of version rows, one of them with a string that
  does not parse as a semantic version, on which the handler raises the
  \<^verbatim>\<open>TypeError\<close> of the comparison: its result is neither the redirect nor the
  not-found status.
\<close>

theorem unparsable_version_raises:
  "\<exists>rows. rows \<noteq> [] \<and> list_ex (\<lambda>r. semver_parse (row_version r) = None) rows \<and>
     package_route packageName rows = Inl (TypeError ''Invalid Version: not-a-version'')"
proof (rule exI [of _ "[\<lparr>row_version = ''2.0.0''\<rparr>, \<lparr>row_version = ''not-a-version''\<rparr>,
    \<lparr>row_version = ''1.0.0''\<rparr>]"])
  show "[\<lparr>row_version = ''2.0.0''\<rparr>, \<lparr>row_version = ''not-a-version''\<rparr>,
      \<lparr>row_version = ''1.0.0''\<rparr>] \<noteq> [] \<and>
    list_ex (\<lambda>r. semver_parse (row_version r) = None)
      [\<lparr>row_version = ''2.0.0''\<rparr>, \<lparr>row_version = ''not-a-version''\<rparr>,
       \<lparr>row_version = ''1.0.0''\<rparr>] \<and>
    package_route packageName
      [\<lparr>row_version = ''2.0.0''\<rparr>, \<lparr>row_version = ''not-a-version''\<rparr>,
       \<lparr>row_version = ''1.0.0''\<rparr>] = Inl (TypeError ''Invalid Version: not-a-version'')"
    by (simp add: package_route_def semver_eval)
qed

section \<open>The responses of the overview and module handlers\<close>

text \<open>
  No scope around the callbacks of the overview handler declares \<^verbatim>\<open>docs\<close>; the
  handler of a module declares it, for itself only. So the callbacks for structured
  data and for plain text raise, whatever the request.
\<close>

lemma docs_is_not_defined:
  "read_identifier
     ((''ctx'', c) # (''next'', n) # (''packageName'', pn) # (''version'', v) #
      (''packageInfo'', i) # (''renderedMarkdown'', r) # (''metadataObj'', m) #
      (''exposedModules'', e) # module_scope)
     ''docs'' = Inl (ReferenceError ''docs is not defined'')"
  by (simp add: read_identifier_def module_scope_def)

lemma views_render_structured:
  "fmt \<noteq> Some Markup \<Longrightarrow> json_fn () = Inl e \<Longrightarrow> text_fn () = Inl e \<Longrightarrow>
   views_render fmt html_fn json_fn text_fn = Inl e"
  by (cases fmt) (auto simp: views_render_def split: format.splits)

lemma overview_route_only_markup:
  assumes "fmt \<noteq> Some Markup"
  shows "overview_route render JSON_parse views_packageOverview fmt packageName version
     packageInfo \<noteq> Inr r"
proof (cases packageInfo)
  case None
  then show ?thesis by (simp add: overview_route_def)
next
  case (Some info)
  show ?thesis
  proof (cases "JSON_parse (metadata info)")
    case (Inl e)
    with Some show ?thesis by (simp add: overview_route_def)
  next
    case (Inr metadataObj)
    show ?thesis
    proof (cases "prepareExposedModulesView packageName version metadataObj")
      case (Inl e)
      with Some Inr show ?thesis by (simp add: overview_route_def)
    next
      case exposed: (Inr exposedModules)
      with Some Inr show ?thesis
        by (simp add: overview_route_def Let_def docs_is_not_defined
            views_render_structured [OF assms])
    qed
  qed
qed

text \<open>
  Claim C1. The structured-data callback should return the package records and the
  plain-text callback the readme. For a stored overview with readable metadata, the
  overview handler raises \<^verbatim>\<open>ReferenceError: docs is not defined\<close> when the format is
  structured, text, or not given.
\<close>

theorem overview_structured_and_text_raise:
  "overview_route render (\<lambda>_. Inr \<lparr>exposed_modules = ModuleList [''Main'']\<rparr>)
     views_packageOverview (Some Structured) ''pkg'' ''1.0.0''
     (Some \<lparr>info_name = ''pkg'', info_version = ''1.0.0'', readme = ''Read me.'',
            metadata = ''(metadata)'', docs = ''(docs)''\<rparr>) =
   Inl (ReferenceError ''docs is not defined'') \<and>
   overview_route render (\<lambda>_. Inr \<lparr>exposed_modules = ModuleList [''Main'']\<rparr>)
     views_packageOverview (Some PlainText) ''pkg'' ''1.0.0''
     (Some \<lparr>info_name = ''pkg'', info_version = ''1.0.0'', readme = ''Read me.'',
            metadata = ''(metadata)'', docs = ''(docs)''\<rparr>) =
   Inl (ReferenceError ''docs is not defined'') \<and>
   overview_route render (\<lambda>_. Inr \<lparr>exposed_modules = ModuleList [''Main'']\<rparr>)
     views_packageOverview None ''pkg'' ''1.0.0''
     (Some \<lparr>info_name = ''pkg'', info_version = ''1.0.0'', readme = ''Read me.'',
            metadata = ''(metadata)'', docs = ''(docs)''\<rparr>) =
   Inl (ReferenceError ''docs is not defined'')"
  by (simp_all add: overview_route_def views_render_def docs_is_not_defined
      prepareExposedModulesView_list Let_def)

text \<open>On the same request the markup callback returns the rendered page.\<close>

lemma overview_markup:
  "overview_route render (\<lambda>_. Inr \<lparr>exposed_modules = ModuleList [''Main'']\<rparr>)
     views_packageOverview (Some Markup) ''pkg'' ''1.0.0''
     (Some \<lparr>info_name = ''pkg'', info_version = ''1.0.0'', readme = ''Read me.'',
            metadata = ''(metadata)'', docs = ''(docs)''\<rparr>) =
   Inr (Body (JString (views_packageOverview
     (OverviewView ''pkg'' ''1.0.0'' ''/package/pkg/version/1.0.0/overview'' (render ''Read me.'')
        [('''', Links [\<lparr>link_name = ''Main'', link = ''/package/pkg/version/1.0.0/module/Main''\<rparr>])]))))"
  by (simp add: overview_route_def views_render_def prepareExposedModulesView_list
      prepareModuleForView_def packageOverviewLink_def uri_eval)

text \<open>
  Claim C3. A package and version without a stored overview should give the
  not-found status. Both handlers read a property of the absent row first and raise a
  \<^verbatim>\<open>TypeError\<close>, for every request.
\<close>

theorem absent_overview_raises:
  "overview_route render JSON_parse views_packageOverview fmt packageName version None =
     Inl (TypeError ''Cannot read properties of undefined (reading readme)'') \<and>
   module_route render JSON_parse_docs JSON_parse views_packageModule fmt packageName version
     moduleName None =
     Inl (TypeError ''Cannot read properties of undefined (reading docs)'')"
  by (simp add: overview_route_def module_route_def property_of_undefined_def)

text \<open>
  The other two cases do give the not-found status: a package without versions, and
  a module name that the parsed docs do not list.
\<close>

lemma package_route_no_versions: "package_route packageName [] = Inr Status404"
  by (simp add: package_route_def)

lemma module_route_unknown_module:
  "JSON_parse_docs (docs info) = Inr parsed \<Longrightarrow>
   find (\<lambda>m. mod_name m = moduleName) parsed = None \<Longrightarrow>
   module_route render JSON_parse_docs JSON_parse views_packageModule fmt packageName version
     moduleName (Some info) = Inr Status404"
  by (simp add: module_route_def)


end
